theory Spec2Isabelle
  imports Main
begin

section \<open>The Raspberry Pi tryboot backend of the boot chooser\<close>

text \<open>
  A shallow embedding of \<^verbatim>\<open>src/bootloaders/raspberrypi.c\<close>. Every C function of
  the file is a HOL function of the same name. What the C code reaches through globals
  and the operating system is passed explicitly:
  \<^item> \<open>RaucContext\<close>: the value of \<^verbatim>\<open>r_context()\<close> (slot registry, configured paths);
  \<^item> \<open>world\<close>: everything a call can change (files, \<^verbatim>\<open>errno\<close>, the firmware's
    reboot flag) together with a trace of the calls made;
  \<^item> \<open>fate\<close>: how the operating system answers the calls that can fail for reasons
    outside the model (disk full, helper missing, ...).
  A \<^verbatim>\<open>GError **error\<close> out-parameter is the \<open>gerror option\<close> component of a result:
  \<open>None\<close> is an error location still holding \<^verbatim>\<open>NULL\<close>. A \<^verbatim>\<open>gboolean\<close> result is a
  \<open>bool\<close>; where the C function also fills an out-parameter, or returns a pointer, the
  result is an \<open>option\<close>: \<open>None\<close> is \<^verbatim>\<open>FALSE\<close> or \<^verbatim>\<open>NULL\<close>, \<open>Some v\<close> is
  \<^verbatim>\<open>TRUE\<close> with the out-parameter set to \<open>v\<close>, or the non-null pointer \<open>v\<close>.
  Arguments of type \<^verbatim>\<open>RaucSlot *\<close> are addresses of live slots; the
  \<^verbatim>\<open>g_return_val_if_fail\<close> guards on null arguments are contracts of the callers.
\<close>

subsection \<open>Errors\<close>

text \<open>
  The three error kinds of the backend: \<^verbatim>\<open>R_BOOTCHOOSER_ERROR_PARSE_FAILED\<close> of
  the domain \<^verbatim>\<open>R_BOOTCHOOSER_ERROR\<close>; the domain \<^verbatim>\<open>G_FILE_ERROR\<close> with the code
  \<^verbatim>\<open>g_file_error_from_errno(err)\<close>, kept as the \<^verbatim>\<open>errno\<close> value itself; and whatever
  GLib reports for a helper process.
\<close>

datatype error_kind = ParseFailed | IOError int | SubprocessError

datatype gerror = GError (kind: error_kind) (message: string)

definition EINVAL :: int where
  "EINVAL = 22"

definition ENOENT :: int where
  "ENOENT = 2"

subsection \<open>Slots and the context\<close>

type_synonym slot_ptr = nat

record RaucSlot =
  name :: string
  bootname :: "string option"

text \<open>
  \<open>slots\<close> lists the values of the hash table \<^verbatim>\<open>config->slots\<close> in the order in which
  the table is iterated; \<open>mem\<close> reads the slot stored at an address.
\<close>

record RaucConfig =
  slots :: "slot_ptr list"
  raspberrypi_autoboottxt_path :: string

record RaucContext =
  config :: RaucConfig
  mem :: "slot_ptr \<Rightarrow> RaucSlot"

subsection \<open>The world\<close>

datatype event =
    Open string
  | Write string string
  | Fsync string
  | Exchange string string
  | Replace string string
  | Remove string
  | Spawn "string list"
  | Warning
  | Critical

text \<open>
  \<open>snapshots\<close> holds the file system as it was after each system call made so far:
  these are the states a crash at a step boundary leaves on disk.
\<close>

record world =
  files :: "string \<rightharpoonup> string"
  errno :: int
  reboot_flag :: bool
  trace :: "event list"
  snapshots :: "(string \<rightharpoonup> string) list"

datatype write_outcome = Written nat | WriteFails int

record fate =
  open_fault :: "int option"
  write_fate :: write_outcome
  fsync_fault :: "int option"
  exchange_fault :: "int option"
  remove_fault :: "int option"
  replace_fault :: "int option"
  spawn_fate :: "gerror option"
  wait_fate :: "gerror option"
  g_strerror :: "int \<Rightarrow> string"

definition sys :: "event \<Rightarrow> world \<Rightarrow> world" where
  "sys ev w = w\<lparr>trace := trace w @ [ev], snapshots := snapshots w @ [files w]\<rparr>"

definition g_log :: "event \<Rightarrow> world \<Rightarrow> world" where
  "g_log ev w = w\<lparr>trace := trace w @ [ev]\<rparr>"

subsection \<open>GLib error propagation\<close>

text \<open>
  GLib is a library outside the repository; its two propagation functions are modelled
  as GLib implements them, with argument checks enabled and critical messages not
  fatal (the defaults). \<^verbatim>\<open>g_propagate_error(dest, src)\<close>, with \<open>dest\<close> the content
  of a non-null error location, starts with \<^verbatim>\<open>g_return_if_fail(src != NULL)\<close>: on a
  null source it logs a critical message and returns, leaving the destination as it
  is. Otherwise a destination already set is kept (with a warning) and the source is
  freed, and an empty destination receives the source.
  \<^verbatim>\<open>g_propagate_prefixed_error\<close> calls it and then puts the prefix in front of the
  message of the error found at the destination.
\<close>

definition g_propagate_error :: "gerror option \<Rightarrow> gerror option \<Rightarrow> world \<Rightarrow> gerror option \<times> world" where
  "g_propagate_error dest src w =
     (case src of
        None \<Rightarrow> (dest, g_log Critical w)
      | Some e \<Rightarrow>
          (case dest of
             None \<Rightarrow> (Some e, w)
           | Some d \<Rightarrow> (Some d, g_log Warning w)))"

definition g_error_add_prefix :: "string \<Rightarrow> gerror \<Rightarrow> gerror" where
  "g_error_add_prefix prefix e = GError (kind e) (prefix @ message e)"

definition g_propagate_prefixed_error ::
  "gerror option \<Rightarrow> gerror option \<Rightarrow> string \<Rightarrow> world \<Rightarrow> gerror option \<times> world" where
  "g_propagate_prefixed_error dest src prefix w =
     (let (dest1, w1) = g_propagate_error dest src w
      in (map_option (g_error_add_prefix prefix) dest1, w1))"

subsection \<open>System calls on files\<close>

text \<open>
  \<^verbatim>\<open>g_open(filename, O_CREAT|O_RDWR, S_IRUSR|S_IWUSR)\<close>: creates an empty file when
  there is none and opens an existing one as it is (the flags do not truncate).
  The result is whether a descriptor was obtained.
\<close>

definition g_open_creat :: "fate \<Rightarrow> string \<Rightarrow> world \<Rightarrow> bool \<times> world" where
  "g_open_creat orc fn w =
     (case open_fault orc of
        Some e \<Rightarrow> (False, sys (Open fn) (w\<lparr>errno := e\<rparr>))
      | None \<Rightarrow>
          (True, sys (Open fn)
             (case files w fn of
                None \<Rightarrow> w\<lparr>files := (files w)(fn \<mapsto> [])\<rparr>
              | Some c \<Rightarrow> w)))"

text \<open>
  \<^verbatim>\<open>write(fd, data, size)\<close> on a descriptor just opened (offset 0): the bytes written
  replace the first bytes of the file and the rest of the file stays. A short write
  returns the number of bytes written and leaves \<^verbatim>\<open>errno\<close> alone.
\<close>

definition overwrite :: "string \<Rightarrow> string \<Rightarrow> string" where
  "overwrite buf c = buf @ drop (length buf) c"

definition sys_write :: "fate \<Rightarrow> string \<Rightarrow> string \<Rightarrow> world \<Rightarrow> int \<times> world" where
  "sys_write orc fn data w =
     (case write_fate orc of
        WriteFails e \<Rightarrow> (- 1, sys (Write fn []) (w\<lparr>errno := e\<rparr>))
      | Written k \<Rightarrow>
          (let buf = take (min k (length data)) data;
               c = (case files w fn of None \<Rightarrow> [] | Some c \<Rightarrow> c)
           in (int (length buf), sys (Write fn buf) (w\<lparr>files := (files w)(fn \<mapsto> overwrite buf c)\<rparr>))))"

definition fsync :: "fate \<Rightarrow> string \<Rightarrow> world \<Rightarrow> int \<times> world" where
  "fsync orc fn w =
     (case fsync_fault orc of
        Some e \<Rightarrow> (- 1, sys (Fsync fn) (w\<lparr>errno := e\<rparr>))
      | None \<Rightarrow> (0, sys (Fsync fn) w))"

text \<open>
  \<^verbatim>\<open>renameat2(..., RENAME_EXCHANGE)\<close> swaps two existing files atomically;
  \<^verbatim>\<open>renameat2(..., 0)\<close> moves the old file onto the new name atomically.
\<close>

definition renameat2_exchange :: "fate \<Rightarrow> string \<Rightarrow> string \<Rightarrow> world \<Rightarrow> int \<times> world" where
  "renameat2_exchange orc old new w =
     (case exchange_fault orc of
        Some e \<Rightarrow> (- 1, sys (Exchange old new) (w\<lparr>errno := e\<rparr>))
      | None \<Rightarrow>
          (case (files w old, files w new) of
             (Some a, Some b) \<Rightarrow>
               (0, sys (Exchange old new) (w\<lparr>files := (files w)(old \<mapsto> b, new \<mapsto> a)\<rparr>))
           | _ \<Rightarrow> (- 1, sys (Exchange old new) (w\<lparr>errno := ENOENT\<rparr>))))"

definition renameat2_replace :: "fate \<Rightarrow> string \<Rightarrow> string \<Rightarrow> world \<Rightarrow> int \<times> world" where
  "renameat2_replace orc old new w =
     (case replace_fault orc of
        Some e \<Rightarrow> (- 1, sys (Replace old new) (w\<lparr>errno := e\<rparr>))
      | None \<Rightarrow>
          (case files w old of
             Some a \<Rightarrow>
               (0, sys (Replace old new) (w\<lparr>files := ((files w)(old := None))(new \<mapsto> a)\<rparr>))
           | None \<Rightarrow> (- 1, sys (Replace old new) (w\<lparr>errno := ENOENT\<rparr>))))"

definition g_remove :: "fate \<Rightarrow> string \<Rightarrow> world \<Rightarrow> int \<times> world" where
  "g_remove orc fn w =
     (case remove_fault orc of
        Some e \<Rightarrow> (- 1, sys (Remove fn) (w\<lparr>errno := e\<rparr>))
      | None \<Rightarrow>
          (case files w fn of
             Some a \<Rightarrow> (0, sys (Remove fn) (w\<lparr>files := (files w)(fn := None)\<rparr>))
           | None \<Rightarrow> (- 1, sys (Remove fn) (w\<lparr>errno := ENOENT\<rparr>))))"

subsection \<open>\<^verbatim>\<open>r_rename\<close>\<close>

definition r_rename :: "fate \<Rightarrow> string \<Rightarrow> string \<Rightarrow> world \<Rightarrow> int \<times> world" where
  "r_rename orc oldfilename newfilename w =
     (let (res, w1) = renameat2_exchange orc oldfilename newfilename w
      in if res = 0 then
           (let (rm, w2) = g_remove orc oldfilename w1
            in (0, if rm = - 1 then g_log Warning w2 else w2))
         else if res = - 1 \<and> errno w1 = EINVAL then
           renameat2_replace orc oldfilename newfilename w1
         else (res, w1))"

subsection \<open>Formatting\<close>

text \<open>
  \<^verbatim>\<open>%u\<close> prints an unsigned 32-bit value in decimal; \<^verbatim>\<open>%i\<close> prints the same 32
  bits as a signed value; \<^verbatim>\<open>%s\<close> of glibc prints a null pointer as \<^verbatim>\<open>(null)\<close>.
\<close>

definition digit :: "nat \<Rightarrow> char" where
  "digit d = ''0123456789'' ! d"

fun utoa :: "nat \<Rightarrow> string" where
  "utoa n = (if n < 10 then [digit n] else utoa (n div 10) @ [digit (n mod 10)])"

declare utoa.simps [simp del]

definition printf_u :: "nat \<Rightarrow> string" where
  "printf_u v = utoa v"

definition printf_i :: "nat \<Rightarrow> string" where
  "printf_i v = (if v < 2147483648 then utoa v else CHR ''-'' # utoa (4294967296 - v))"

definition printf_s :: "string option \<Rightarrow> string" where
  "printf_s p = (case p of None \<Rightarrow> ''(null)'' | Some s \<Rightarrow> s)"

definition g_build_filename :: "string \<Rightarrow> string \<Rightarrow> string" where
  "g_build_filename dir file = dir @ ''/'' @ file"

subsection \<open>Slot resolver\<close>

text \<open>
  Modelled from the spec: \<^verbatim>\<open>find_config_slot_by_bootname\<close> is declared in
  \<^verbatim>\<open>context.h\<close> and its body is not part of the sources at hand. The spec (4.3): it
  looks the bootname up in the registry and returns nothing if no slot matches.
\<close>

definition find_config_slot_by_bootname :: "RaucContext \<Rightarrow> string \<Rightarrow> slot_ptr option" where
  "find_config_slot_by_bootname ctx nm =
     find (\<lambda>s. bootname (mem ctx s) = Some nm) (slots (config ctx))"

definition raspberrypi_find_config_slot_by_boot_partition :: "RaucContext \<Rightarrow> nat \<Rightarrow> slot_ptr option" where
  "raspberrypi_find_config_slot_by_boot_partition ctx part =
     find_config_slot_by_bootname ctx (printf_u part)"

subsection \<open>Firmware flag channel\<close>

text \<open>
  \<^verbatim>\<open>read(fd, &val, sizeof(val))\<close> loads four bytes in the byte order of the host,
  little-endian on the Raspberry Pi, and \<^verbatim>\<open>g_htonl\<close> swaps them.
\<close>

definition load_le32 :: "string \<Rightarrow> nat" where
  "load_le32 bs =
     of_char (bs ! 0) + 256 * of_char (bs ! 1) + 65536 * of_char (bs ! 2) + 16777216 * of_char (bs ! 3)"

definition g_htonl :: "nat \<Rightarrow> nat" where
  "g_htonl v =
     (v mod 256) * 16777216 + (v div 256 mod 256) * 65536 + (v div 65536 mod 256) * 256
       + v div 16777216 mod 256"

definition raspberrypi_bootloader_get :: "string \<Rightarrow> world \<Rightarrow> nat option \<times> gerror option \<times> world" where
  "raspberrypi_bootloader_get property w =
     (let filename = g_build_filename ''/sys/firmware/devicetree/base/chosen/bootloader'' property
      in case files w filename of
           None \<Rightarrow>
             (None, Some (GError ParseFailed (''Failed to open file: '' @ filename)),
              w\<lparr>errno := ENOENT\<rparr>)
         | Some bytes \<Rightarrow>
             if length bytes < 4 then
               (None, Some (GError ParseFailed (''Failed to read integer from file: '' @ filename)), w)
             else (Some (g_htonl (load_le32 bytes)), None, w))"

definition raspberrypi_bootloader_get_partition :: "world \<Rightarrow> nat option \<times> gerror option \<times> world" where
  "raspberrypi_bootloader_get_partition w = raspberrypi_bootloader_get ''partition'' w"

definition raspberrypi_bootloader_get_tryboot :: "world \<Rightarrow> bool option \<times> gerror option \<times> world" where
  "raspberrypi_bootloader_get_tryboot w =
     (case raspberrypi_bootloader_get ''tryboot'' w of
        (None, error, w1) \<Rightarrow> (None, error, w1)
      | (Some v, error, w1) \<Rightarrow> (Some (v \<noteq> 0), error, w1))"

text \<open>
  The helper \<^verbatim>\<open>vcmailbox\<close> is an external program. When it runs and exits with
  status zero the firmware's one-shot reboot flag holds the requested value.
\<close>

definition raspberrypi_tryboot_set :: "fate \<Rightarrow> bool \<Rightarrow> world \<Rightarrow> bool \<times> gerror option \<times> world" where
  "raspberrypi_tryboot_set orc enable w =
     (let w1 = g_log (Spawn [''vcmailbox'', ''0x00038064'', ''4'', ''0'', if enable then ''1'' else ''0'']) w
      in case spawn_fate orc of
           Some ierror \<Rightarrow>
             (let (error, w2) = g_propagate_prefixed_error None (Some ierror) ''Failed to start vcmailbox: '' w1
              in (False, error, w2))
         | None \<Rightarrow>
             (case wait_fate orc of
                Some ierror \<Rightarrow>
                  (let (error, w2) = g_propagate_prefixed_error None (Some ierror) ''Failed to run vcmailbox: '' w1
                   in (False, error, w2))
              | None \<Rightarrow> (True, None, w1\<lparr>reboot_flag := enable\<rparr>)))"

subsection \<open>The backend operations\<close>


text \<open>The loop of \<^verbatim>\<open>r_raspberrypi_get_primary\<close> over the values of the slot table.\<close>

fun first_other :: "(slot_ptr \<Rightarrow> RaucSlot) \<Rightarrow> slot_ptr \<Rightarrow> slot_ptr list \<Rightarrow> slot_ptr option" where
  "first_other m booted [] = None"
| "first_other m booted (s # l) =
     (if s = booted then first_other m booted l
      else if bootname (m s) = None then first_other m booted l
      else Some s)"

definition r_raspberrypi_get_primary :: "RaucContext \<Rightarrow> world \<Rightarrow> slot_ptr option \<times> gerror option \<times> world" where
  "r_raspberrypi_get_primary ctx w =
     (case raspberrypi_bootloader_get_partition w of
        (None, ierror, w1) \<Rightarrow>
          (let (error, w2) = g_propagate_prefixed_error None ierror ''Failed to get bootloader partition property: '' w1
           in (None, error, w2))
      | (Some part, ierror, w1) \<Rightarrow>
          (case raspberrypi_bootloader_get_tryboot w1 of
             (None, ierror, w2) \<Rightarrow>
               (let (error, w3) = g_propagate_prefixed_error None ierror ''Failed to get bootloader tryboot property: '' w2
                in (None, error, w3))
           | (Some tryboot, ierror, w2) \<Rightarrow>
               (case raspberrypi_find_config_slot_by_boot_partition ctx part of
                  None \<Rightarrow>
                    (None, Some (GError ParseFailed (''No slot found with partition '' @ printf_i part)), w2)
                | Some booted \<Rightarrow>
                    if \<not> tryboot then (Some booted, None, w2)
                    else
                      (case first_other (mem ctx) booted (slots (config ctx)) of
                         Some s \<Rightarrow> (Some s, None, w2)
                       | None \<Rightarrow> (None, Some (GError ParseFailed ''No slot found''), w2)))))"

text \<open>
  \<^verbatim>\<open>raspberrypi_set_other_temporary\<close> hands its own \<^verbatim>\<open>error\<close> to
  \<^verbatim>\<open>raspberrypi_tryboot_set\<close>, so a failure is written to the caller's location
  directly, and \<^verbatim>\<open>ierror\<close> is still \<^verbatim>\<open>NULL\<close> when it is propagated.
\<close>

definition raspberrypi_set_other_temporary :: "fate \<Rightarrow> world \<Rightarrow> bool \<times> gerror option \<times> world" where
  "raspberrypi_set_other_temporary orc w =
     (let ierror = None
      in case raspberrypi_tryboot_set orc True w of
           (False, error, w1) \<Rightarrow>
             (let (error1, w2) = g_propagate_prefixed_error error ierror ''Failed to set reboot flag: '' w1
              in (False, error1, w2))
         | (True, error, w1) \<Rightarrow> (True, error, w1))"

definition autoboot_txt :: "string \<Rightarrow> string \<Rightarrow> string" where
  "autoboot_txt other_bootname primary_bootname =
     ''[all]'' @ [CHR 0x0A] @ ''tryboot_a_b=1'' @ [CHR 0x0A] @ ''boot_partition='' @ other_bootname @ [CHR 0x0A]
       @ ''[tryboot]'' @ [CHR 0x0A] @ ''boot_partition='' @ primary_bootname @ [CHR 0x0A]"

definition g_file_error :: "fate \<Rightarrow> int \<Rightarrow> string \<Rightarrow> gerror" where
  "g_file_error orc err what = GError (IOError err) (what @ '': '' @ g_strerror orc err)"

definition raspberrypi_set_other_persistent ::
  "RaucContext \<Rightarrow> fate \<Rightarrow> slot_ptr \<Rightarrow> slot_ptr \<Rightarrow> world \<Rightarrow> bool \<times> gerror option \<times> world" where
  "raspberrypi_set_other_persistent ctx orc primary other w =
     (let filename = raspberrypi_autoboottxt_path (config ctx);
          filename_tmp = filename @ ''.tmp'';
          (fd, w1) = g_open_creat orc filename_tmp w
      in if \<not> fd then
           (False, Some (g_file_error orc (errno w1) (''Failed to open file '' @ filename_tmp)), w1)
         else
           (let data = autoboot_txt (printf_s (bootname (mem ctx other))) (printf_s (bootname (mem ctx primary)));
                (n, w2) = sys_write orc filename_tmp data w1
            in if n \<noteq> int (length data) then
                 (False, Some (g_file_error orc (errno w2) (''Failed to write file '' @ filename_tmp)), w2)
               else
                 (let (s, w3) = fsync orc filename_tmp w2
                  in if s = - 1 then
                       (False, Some (g_file_error orc (errno w3) (''Failed to sync file '' @ filename_tmp)), w3)
                     else
                       (let (r, w4) = r_rename orc filename_tmp filename w3
                        in if r = - 1 then
                             (False,
                              Some (g_file_error orc (errno w4)
                                      (''Failed to rename '' @ filename_tmp @ '' to '' @ filename)), w4)
                           else (True, None, w4)))))"

definition r_raspberrypi_set_primary ::
  "RaucContext \<Rightarrow> fate \<Rightarrow> slot_ptr \<Rightarrow> world \<Rightarrow> bool \<times> gerror option \<times> world" where
  "r_raspberrypi_set_primary ctx orc slot w =
     (case r_raspberrypi_get_primary ctx w of
        (None, ierror, w1) \<Rightarrow>
          (let (error, w2) = g_propagate_prefixed_error None ierror ''Failed to get primary: '' w1
           in (False, error, w2))
      | (Some primary, ierror, w1) \<Rightarrow>
          if slot = primary then (True, None, w1)
          else
            (case raspberrypi_bootloader_get_tryboot w1 of
               (None, ierror, w2) \<Rightarrow>
                 (let (error, w3) = g_propagate_prefixed_error None ierror ''Failed to get bootloader tryboot property: '' w2
                  in (False, error, w3))
             | (Some tryboot, ierror, w2) \<Rightarrow>
                 if \<not> tryboot then
                   (case raspberrypi_set_other_temporary orc w2 of
                      (False, ierror, w3) \<Rightarrow>
                        (let (error, w4) = g_propagate_prefixed_error None ierror ''Failed to set other temporary: '' w3
                         in (False, error, w4))
                    | (True, ierror, w3) \<Rightarrow> (True, None, w3))
                 else
                   (case raspberrypi_set_other_persistent ctx orc primary slot w2 of
                      (False, ierror, w3) \<Rightarrow>
                        (let (error, w4) = g_propagate_prefixed_error None ierror ''Failed to set other persistent: '' w3
                         in (False, error, w4))
                    | (True, ierror, w3) \<Rightarrow> (True, None, w3))))"

definition r_raspberrypi_get_state ::
  "RaucContext \<Rightarrow> slot_ptr \<Rightarrow> world \<Rightarrow> bool option \<times> gerror option \<times> world" where
  "r_raspberrypi_get_state ctx slot w =
     (case raspberrypi_bootloader_get_partition w of
        (None, ierror, w1) \<Rightarrow>
          (let (error, w2) = g_propagate_prefixed_error None ierror ''Failed to get bootloader partition property: '' w1
           in (None, error, w2))
      | (Some part, ierror, w1) \<Rightarrow>
          (case raspberrypi_bootloader_get_tryboot w1 of
             (None, ierror, w2) \<Rightarrow>
               (let (error, w3) = g_propagate_prefixed_error None ierror ''Failed to get bootloader tryboot property: '' w2
                in (None, error, w3))
           | (Some tryboot, ierror, w2) \<Rightarrow>
               (case raspberrypi_find_config_slot_by_boot_partition ctx part of
                  None \<Rightarrow>
                    (None, Some (GError ParseFailed (''No slot found with partition '' @ printf_i part)), w2)
                | Some booted \<Rightarrow> (Some (booted = slot \<or> tryboot), None, w2))))"

definition r_raspberrypi_set_state ::
  "RaucContext \<Rightarrow> fate \<Rightarrow> slot_ptr \<Rightarrow> bool \<Rightarrow> world \<Rightarrow> bool \<times> gerror option \<times> world" where
  "r_raspberrypi_set_state ctx orc slot good w =
     (case r_raspberrypi_get_primary ctx w of
        (None, ierror, w1) \<Rightarrow>
          (let (error, w2) = g_propagate_prefixed_error None ierror ''Failed to get primary: '' w1
           in (False, error, w2))
      | (Some primary, ierror, w1) \<Rightarrow>
          if (slot \<noteq> primary \<and> good) \<or> (slot = primary \<and> \<not> good) then
            (case raspberrypi_set_other_persistent ctx orc primary slot w1 of
               (False, ierror, w2) \<Rightarrow>
                 (let (error, w3) = g_propagate_prefixed_error None ierror ''Failed to set other persistent: '' w2
                  in (False, error, w3))
             | (True, ierror, w2) \<Rightarrow> (True, None, w2))
          else (True, None, w1))"

subsection \<open>Reading the trace; concrete devices\<close>

definition new_events :: "world \<Rightarrow> world \<Rightarrow> event list" where
  "new_events w w' = drop (length (trace w)) (trace w')"

text \<open>
  A device for concrete runs: two bootable slots at the addresses 10 and 20 with the
  bootnames 2 and 3, a data slot without bootname, an operating system that never
  fails, and worlds whose firmware facts hold the given bytes: a normal session booted
  from partition 2 and a trial session booted from partition 3.
\<close>

definition no_faults :: fate where
  "no_faults =
     \<lparr>open_fault = None, write_fate = Written 4096, fsync_fault = None, exchange_fault = None,
      remove_fault = None, replace_fault = None, spawn_fate = None, wait_fate = None,
      g_strerror = (\<lambda>e. ''errno '' @ utoa (nat e))\<rparr>"

definition boot_world :: "string \<Rightarrow> string \<Rightarrow> world" where
  "boot_world p t =
     \<lparr>files = [''/sys/firmware/devicetree/base/chosen/bootloader/partition'' \<mapsto> p,
               ''/sys/firmware/devicetree/base/chosen/bootloader/tryboot'' \<mapsto> t,
               ''/boot/autoboot.txt'' \<mapsto> autoboot_txt ''2'' ''3''],
      errno = 0, reboot_flag = False, trace = [], snapshots = []\<rparr>"

definition two_slots :: RaucContext where
  "two_slots =
     \<lparr>config = \<lparr>slots = [10, 20, 30], raspberrypi_autoboottxt_path = ''/boot/autoboot.txt''\<rparr>,
      mem = (\<lambda>p. if p = 10 then \<lparr>name = ''rootfs.0'', bootname = Some ''2''\<rparr>
                  else if p = 20 then \<lparr>name = ''rootfs.1'', bootname = Some ''3''\<rparr>
                  else \<lparr>name = ''data.0'', bootname = None\<rparr>)\<rparr>"

definition normal_world :: world where
  "normal_world = boot_world [CHR 0x00, CHR 0x00, CHR 0x00, CHR 0x02] [CHR 0x00, CHR 0x00, CHR 0x00, CHR 0x00]"

definition trial_world :: world where
  "trial_world = boot_world [CHR 0x00, CHR 0x00, CHR 0x00, CHR 0x03] [CHR 0x00, CHR 0x00, CHR 0x00, CHR 0x01]"

text \<open>
  \<open>quiet w w'\<close>: from \<open>w\<close> to \<open>w'\<close> the firmware flag kept its value and no helper
  process was started.
\<close>

fun is_spawn :: "event \<Rightarrow> bool" where
  "is_spawn (Spawn args) = True"
| "is_spawn ev = False"

definition quiet :: "world \<Rightarrow> world \<Rightarrow> bool" where
  "quiet w w' \<longleftrightarrow>
     reboot_flag w' = reboot_flag w \<and> (\<exists>evs. trace w' = trace w @ evs \<and> filter is_spawn evs = [])"

text \<open>
  \<open>same_device w w'\<close>: nothing a caller can observe on the device differs (files,
  firmware flag, calls made); \<^verbatim>\<open>errno\<close> may differ. \<open>prefixed p inner outer\<close>: the
  outer error is the inner error with the context \<open>p\<close> in front of its message and
  the same kind.
\<close>

definition same_device :: "world \<Rightarrow> world \<Rightarrow> bool" where
  "same_device w w' \<longleftrightarrow>
     files w' = files w \<and> reboot_flag w' = reboot_flag w \<and> trace w' = trace w
     \<and> snapshots w' = snapshots w"

definition error_of :: "'a \<times> gerror option \<times> world \<Rightarrow> gerror option" where
  "error_of r = fst (snd r)"


text \<open>
  More concrete worlds: a session booted from partition 7, which no slot carries; a
  device whose firmware facts are missing; one whose tryboot fact holds a single byte.
  And operating systems that fail in one place.
\<close>

definition lost_world :: world where
  "lost_world = boot_world [CHR 0x00, CHR 0x00, CHR 0x00, CHR 0x07] [CHR 0x00, CHR 0x00, CHR 0x00, CHR 0x00]"






subsection \<open>The reader of the persistent configuration\<close>

text \<open>
  Modelled from the spec: the persistent configuration is read by the firmware, which
  is no part of the repository. The spec (6) gives the format: text with the sections
  \<^verbatim>\<open>[all]\<close> and \<^verbatim>\<open>[tryboot]\<close>, each holding a \<^verbatim>\<open>boot_partition=<integer>\<close> line.
  \<open>read_autoboot\<close> splits the text into lines and lists every \<^verbatim>\<open>key=value\<close> line
  with the section it stands in; \<open>atou\<close> reads a decimal number.
\<close>

fun lines_from :: "string \<Rightarrow> string \<Rightarrow> string list" where
  "lines_from cur [] = (if cur = [] then [] else [cur])"
| "lines_from cur (c # cs) = (if c = CHR 0x0A then cur # lines_from [] cs else lines_from (cur @ [c]) cs)"

datatype ini_line = Section string | Setting string string | Junk

definition parse_line :: "string \<Rightarrow> ini_line" where
  "parse_line l =
     (if l \<noteq> [] \<and> hd l = CHR ''['' \<and> last l = CHR '']'' then Section (butlast (tl l))
      else if CHR ''='' \<in> set l then
        Setting (takeWhile (\<lambda>c. c \<noteq> CHR ''='') l) (tl (dropWhile (\<lambda>c. c \<noteq> CHR ''='') l))
      else Junk)"

fun settings :: "string \<Rightarrow> ini_line list \<Rightarrow> ((string \<times> string) \<times> string) list" where
  "settings sec [] = []"
| "settings sec (Section s # ls) = settings s ls"
| "settings sec (Setting k v # ls) = ((sec, k), v) # settings sec ls"
| "settings sec (Junk # ls) = settings sec ls"

definition read_autoboot :: "string \<Rightarrow> ((string \<times> string) \<times> string) list" where
  "read_autoboot txt = settings [] (map parse_line (lines_from [] txt))"

definition atou :: "string \<Rightarrow> nat" where
  "atou s = foldl (\<lambda>n c. 10 * n + (of_char c - 48)) 0 s"

text \<open>
  \<open>new_snapshots w w'\<close>: the states of the file system at the step boundaries between
  \<open>w\<close> and \<open>w'\<close>. A device whose configuration file still is the longer file of the
  factory image, and an operating system on which removing a file fails.
\<close>

definition new_snapshots :: "world \<Rightarrow> world \<Rightarrow> (string \<rightharpoonup> string) list" where
  "new_snapshots w w' = drop (length (snapshots w)) (snapshots w')"

definition factory_txt :: string where
  "factory_txt = autoboot_txt ''2'' ''3'' @ ''# factory image'' @ [CHR 0x0A]"

definition factory_world :: world where
  "factory_world = trial_world\<lparr>files := (files trial_world)(''/boot/autoboot.txt'' \<mapsto> factory_txt)\<rparr>"

definition remove_fails :: fate where
  "remove_fails = no_faults\<lparr>remove_fault := Some 5\<rparr>"

text \<open>
  A device whose configuration file is the text for the partitions 2 and 3 below one
  comment line of the image build.
\<close>

definition commented_txt :: string where
  "commented_txt = ''# boot selection'' @ [CHR 0x0A] @ autoboot_txt ''2'' ''3''"

definition commented_world :: world where
  "commented_world = trial_world\<lparr>files := (files trial_world)(''/boot/autoboot.txt'' \<mapsto> commented_txt)\<rparr>"

section \<open>Properties\<close>

subsection \<open>Evaluation and bookkeeping lemmas\<close>

lemmas read_defs =
  raspberrypi_bootloader_get_partition_def raspberrypi_bootloader_get_tryboot_def
  raspberrypi_bootloader_get_def g_build_filename_def load_le32_def g_htonl_def
  raspberrypi_find_config_slot_by_boot_partition_def find_config_slot_by_bootname_def
  printf_u_def digit_def boot_world_def two_slots_def normal_world_def trial_world_def

lemma utoa_2 [simp]: "utoa 2 = ''2''"
  by (simp add: utoa.simps digit_def)

lemma utoa_3 [simp]: "utoa 3 = ''3''"
  by (simp add: utoa.simps digit_def)

lemma res_exchange:
  "fst (renameat2_exchange orc old new w) = 0 \<or> fst (renameat2_exchange orc old new w) = - 1"
  by (simp add: renameat2_exchange_def split: option.splits)

lemma trace_sys [simp]: "trace (sys ev w) = trace w @ [ev]"
  by (simp add: sys_def)

lemma trace_g_log [simp]: "trace (g_log ev w) = trace w @ [ev]"
  by (simp add: g_log_def)

lemma trace_replace: "trace (snd (renameat2_replace orc old new w)) = trace w @ [Replace old new]"
  by (simp add: renameat2_replace_def split: option.splits)

lemma trace_remove: "trace (snd (g_remove orc old w)) = trace w @ [Remove old]"
  by (simp add: g_remove_def split: option.splits)

lemma prefixed_Some [simp]:
  "g_propagate_prefixed_error None (Some e) p w = (Some (GError (kind e) (p @ message e)), w)"
  by (simp add: g_propagate_prefixed_error_def g_propagate_error_def g_error_add_prefix_def)

subsection \<open>Reading boot facts changes nothing\<close>

lemma bootloader_get_ok:
  "raspberrypi_bootloader_get property w = (Some v, e, w') \<Longrightarrow> e = None \<and> w' = w"
  by (auto simp: raspberrypi_bootloader_get_def Let_def split: option.splits if_splits)

lemma bootloader_get_fail:
  "raspberrypi_bootloader_get property w = (None, e, w') \<Longrightarrow>
     (\<exists>m. e = Some (GError ParseFailed m)) \<and> files w' = files w \<and> reboot_flag w' = reboot_flag w
       \<and> trace w' = trace w \<and> snapshots w' = snapshots w"
  by (auto simp: raspberrypi_bootloader_get_def Let_def split: option.splits if_splits)

lemma get_partition_ok:
  "fst (raspberrypi_bootloader_get_partition w) = Some v \<Longrightarrow>
     raspberrypi_bootloader_get_partition w = (Some v, None, w)"
  unfolding raspberrypi_bootloader_get_partition_def
  using bootloader_get_ok [of "''partition''" w v]
  by (cases "raspberrypi_bootloader_get ''partition'' w") auto

lemma get_tryboot_ok:
  "fst (raspberrypi_bootloader_get_tryboot w) = Some t \<Longrightarrow>
     raspberrypi_bootloader_get_tryboot w = (Some t, None, w)"
  unfolding raspberrypi_bootloader_get_tryboot_def
  using bootloader_get_ok [of "''tryboot''" w]
  by (cases "raspberrypi_bootloader_get ''tryboot'' w") (auto split: option.splits)

lemma get_tryboot_fail:
  "fst (raspberrypi_bootloader_get_tryboot w) = None \<Longrightarrow>
     \<exists>m w'. raspberrypi_bootloader_get_tryboot w = (None, Some (GError ParseFailed m), w')
        \<and> files w' = files w \<and> reboot_flag w' = reboot_flag w \<and> trace w' = trace w
        \<and> snapshots w' = snapshots w"
  unfolding raspberrypi_bootloader_get_tryboot_def
  using bootloader_get_fail [of "''tryboot''" w]
  by (cases "raspberrypi_bootloader_get ''tryboot'' w") (auto split: option.splits)

lemma first_other_find:
  "first_other m booted l = find (\<lambda>s. s \<noteq> booted \<and> bootname (m s) \<noteq> None) l"
  by (induction l) auto

lemma get_primary_ok:
  assumes "fst (r_raspberrypi_get_primary ctx w) = Some p"
  shows "r_raspberrypi_get_primary ctx w = (Some p, None, w)"
proof -
  obtain pr e1 w1 where a: "raspberrypi_bootloader_get_partition w = (pr, e1, w1)"
    by (cases "raspberrypi_bootloader_get_partition w")
  obtain tr e2 w2 where b: "raspberrypi_bootloader_get_tryboot w1 = (tr, e2, w2)"
    by (cases "raspberrypi_bootloader_get_tryboot w1")
  from assms a obtain part where pr: "pr = Some part"
    by (cases pr) (auto simp: r_raspberrypi_get_primary_def)
  with a have a': "e1 = None" "w1 = w"
    using get_partition_ok [of w part] by auto
  from assms a b pr obtain t where tr: "tr = Some t"
    by (cases tr) (auto simp: r_raspberrypi_get_primary_def)
  with b a' have b': "e2 = None" "w2 = w"
    using get_tryboot_ok [of w t] by auto
  show ?thesis
    using assms a b pr tr a' b'
    by (auto simp: r_raspberrypi_get_primary_def split: option.splits if_splits)
qed

lemma normal_facts:
  "raspberrypi_bootloader_get_partition normal_world =
     (Some 2, None, normal_world)"
  "raspberrypi_bootloader_get_tryboot normal_world =
     (Some False, None, normal_world)"
  by (simp_all add: read_defs)

lemma trial_facts:
  "raspberrypi_bootloader_get_partition trial_world =
     (Some 3, None, trial_world)"
  "raspberrypi_bootloader_get_tryboot trial_world =
     (Some True, None, trial_world)"
  by (simp_all add: read_defs)

lemma resolve_two_slots:
  "raspberrypi_find_config_slot_by_boot_partition two_slots 2 = Some 10"
  "raspberrypi_find_config_slot_by_boot_partition two_slots 3 = Some 20"
  by (simp_all add: read_defs)

subsection \<open>Slot health\<close>

text \<open>
  Claim C2. When both firmware facts can be read and the booted partition resolves to
  a slot, \<open>r_raspberrypi_get_state\<close> succeeds for every slot \<open>s\<close>, changes nothing, and
  reports \<open>s\<close> good exactly when \<open>s\<close> is the booted slot or the tryboot fact is set.
\<close>

theorem get_state_good_iff:
  assumes "fst (raspberrypi_bootloader_get_partition w) = Some part"
    and "fst (raspberrypi_bootloader_get_tryboot w) = Some tryboot"
    and "raspberrypi_find_config_slot_by_boot_partition ctx part = Some booted"
  shows "r_raspberrypi_get_state ctx s w = (Some (s = booted \<or> tryboot), None, w)"
  using get_partition_ok [OF assms(1)] get_tryboot_ok [OF assms(2)] assms(3)
  by (auto simp: r_raspberrypi_get_state_def)

theorem get_state_good_iff_witness:
  "r_raspberrypi_get_state two_slots 10 normal_world = (Some True, None, normal_world)
   \<and> r_raspberrypi_get_state two_slots 20 normal_world = (Some False, None, normal_world)
   \<and> r_raspberrypi_get_state two_slots 10 trial_world = (Some True, None, trial_world)"
  using get_state_good_iff [of normal_world 2 False two_slots 10 10]
    get_state_good_iff [of normal_world 2 False two_slots 10 20]
    get_state_good_iff [of trial_world 3 True two_slots 20 10]
  by (simp add: normal_facts trial_facts resolve_two_slots)

subsection \<open>The primary slot\<close>

text \<open>
  Claim C7. In a trial session (tryboot fact set, booted partition resolved)
  \<open>r_raspberrypi_get_primary\<close> returns the first slot in the iteration order of the
  registry that is not the booted slot and has a bootname set; when there is none it
  fails with \<open>ParseFailed\<close> and the message "No slot found". A bootname is set when
  the pointer is not null, which is what the loop tests.
\<close>

theorem get_primary_trial:
  assumes "fst (raspberrypi_bootloader_get_partition w) = Some part"
    and "fst (raspberrypi_bootloader_get_tryboot w) = Some True"
    and "raspberrypi_find_config_slot_by_boot_partition ctx part = Some booted"
  shows "r_raspberrypi_get_primary ctx w =
     (case find (\<lambda>s. s \<noteq> booted \<and> bootname (mem ctx s) \<noteq> None) (slots (config ctx)) of
        Some s \<Rightarrow> (Some s, None, w)
      | None \<Rightarrow> (None, Some (GError ParseFailed ''No slot found''), w))"
  using get_partition_ok [OF assms(1)] get_tryboot_ok [OF assms(2)] assms(3)
  by (simp add: r_raspberrypi_get_primary_def first_other_find split: option.splits)

theorem get_primary_trial_witness:
  "r_raspberrypi_get_primary two_slots trial_world = (Some 10, None, trial_world)
   \<and> r_raspberrypi_get_primary (two_slots\<lparr>config := (config two_slots)\<lparr>slots := [30, 20]\<rparr>\<rparr>) trial_world
     = (None, Some (GError ParseFailed ''No slot found''), trial_world)"
proof -
  have r: "raspberrypi_find_config_slot_by_boot_partition
             (two_slots\<lparr>config := (config two_slots)\<lparr>slots := [30, 20]\<rparr>\<rparr>) 3 = Some 20"
    by (simp add: read_defs)
  show ?thesis
    using get_primary_trial [of trial_world 3 two_slots 20]
      get_primary_trial [of trial_world 3
        "two_slots\<lparr>config := (config two_slots)\<lparr>slots := [30, 20]\<rparr>\<rparr>" 20] r
    by (simp add: trial_facts resolve_two_slots) (simp add: two_slots_def)
qed

text \<open>
  Claim C4. Asking for the slot that \<open>r_raspberrypi_get_primary\<close> returns succeeds and
  leaves the whole world as it was: no helper is started and no file is touched.
\<close>

theorem set_primary_idempotent:
  assumes "fst (r_raspberrypi_get_primary ctx w) = Some p"
  shows "r_raspberrypi_set_primary ctx orc p w = (True, None, w)"
  using get_primary_ok [OF assms] by (simp add: r_raspberrypi_set_primary_def)

theorem set_primary_idempotent_witness:
  "fst (r_raspberrypi_get_primary two_slots normal_world) = Some 10
   \<and> r_raspberrypi_set_primary two_slots no_faults 10 normal_world = (True, None, normal_world)"
proof -
  have h: "fst (r_raspberrypi_get_primary two_slots normal_world) = Some 10"
    by (simp add: r_raspberrypi_get_primary_def normal_facts resolve_two_slots)
  show ?thesis
    using h set_primary_idempotent [OF h, of no_faults] by simp
qed

subsection \<open>What the persistent writer and the arming command touch\<close>

lemma quiet_refl: "quiet w w"
  by (simp add: quiet_def)

lemma quiet_trans: "quiet w w1 \<Longrightarrow> quiet w1 w2 \<Longrightarrow> quiet w w2"
  by (auto simp: quiet_def)

lemma quiet_new_events:
  "quiet w w' \<Longrightarrow> reboot_flag w' = reboot_flag w \<and> filter is_spawn (new_events w w') = []"
  by (auto simp: quiet_def new_events_def)

lemma quiet_open: "quiet w (snd (g_open_creat orc fn w))"
  by (simp add: quiet_def g_open_creat_def sys_def split: option.splits)

lemma quiet_write: "quiet w (snd (sys_write orc fn d w))"
  by (simp add: quiet_def sys_write_def sys_def Let_def split: write_outcome.splits)

lemma quiet_fsync: "quiet w (snd (fsync orc fn w))"
  by (simp add: quiet_def fsync_def sys_def split: option.splits)

lemma quiet_exchange: "quiet w (snd (renameat2_exchange orc a b w))"
  by (simp add: quiet_def renameat2_exchange_def sys_def split: option.splits)

lemma quiet_replace: "quiet w (snd (renameat2_replace orc a b w))"
  by (simp add: quiet_def renameat2_replace_def sys_def split: option.splits)

lemma quiet_remove: "quiet w (snd (g_remove orc a w))"
  by (simp add: quiet_def g_remove_def sys_def split: option.splits)

lemma quiet_warning: "quiet w (g_log Warning w)"
  by (simp add: quiet_def g_log_def)

lemma quiet_rename: "quiet w (snd (r_rename orc a b w))"
proof -
  obtain res w1 where ex: "renameat2_exchange orc a b w = (res, w1)"
    by (cases "renameat2_exchange orc a b w")
  obtain rm w2 where rm: "g_remove orc a w1 = (rm, w2)"
    by (cases "g_remove orc a w1")
  have q1: "quiet w w1" using quiet_exchange [of w orc a b] ex by simp
  have q2: "quiet w1 w2" using quiet_remove [of w1 orc a] rm by simp
  have q3: "quiet w2 (g_log Warning w2)" by (rule quiet_warning)
  have q4: "quiet w1 (snd (renameat2_replace orc a b w1))" by (rule quiet_replace)
  show ?thesis
    using quiet_trans [OF q1 q2] quiet_trans [OF quiet_trans [OF q1 q2] q3] quiet_trans [OF q1 q4] q1
    by (simp add: r_rename_def ex rm)
qed

lemma persistent_shape:
  "raspberrypi_set_other_persistent ctx orc a b w = (ok, e, w') \<Longrightarrow>
     (ok \<longrightarrow> e = None) \<and> (\<not> ok \<longrightarrow> (\<exists>n m. e = Some (GError (IOError n) m)))"
  by (auto simp: raspberrypi_set_other_persistent_def Let_def g_file_error_def split: prod.splits if_splits)

lemma quiet_persistent: "quiet w (snd (snd (raspberrypi_set_other_persistent ctx orc a b w)))"
proof -
  let ?path = "raspberrypi_autoboottxt_path (config ctx)"
  let ?tmp = "?path @ ''.tmp''"
  let ?data = "autoboot_txt (printf_s (bootname (mem ctx b))) (printf_s (bootname (mem ctx a)))"
  obtain fd w1 where o: "g_open_creat orc ?tmp w = (fd, w1)"
    by (cases "g_open_creat orc ?tmp w")
  obtain n w2 where wr: "sys_write orc ?tmp ?data w1 = (n, w2)"
    by (cases "sys_write orc ?tmp ?data w1")
  obtain s w3 where fs: "fsync orc ?tmp w2 = (s, w3)"
    by (cases "fsync orc ?tmp w2")
  obtain r w4 where rn: "r_rename orc ?tmp ?path w3 = (r, w4)"
    by (cases "r_rename orc ?tmp ?path w3")
  have q1: "quiet w w1" using quiet_open [of w orc ?tmp] o by simp
  have q2: "quiet w w2" using quiet_trans [OF q1] quiet_write [of w1 orc ?tmp ?data] wr by simp
  have q3: "quiet w w3" using quiet_trans [OF q2] quiet_fsync [of w2 orc ?tmp] fs by simp
  have q4: "quiet w w4" using quiet_trans [OF q3] quiet_rename [of w3 orc ?tmp ?path] rn by simp
  show ?thesis
    using q1 q2 q3 q4 by (simp add: raspberrypi_set_other_persistent_def Let_def o wr fs rn)
qed

lemma tryboot_set_shape:
  "raspberrypi_tryboot_set orc enable w = (ok, e, w') \<Longrightarrow>
     files w' = files w \<and> snapshots w' = snapshots w
     \<and> trace w' = trace w @ [Spawn [''vcmailbox'', ''0x00038064'', ''4'', ''0'', if enable then ''1'' else ''0'']]
     \<and> (ok \<longrightarrow> e = None) \<and> (\<not> ok \<longrightarrow> e \<noteq> None)"
  by (auto simp: raspberrypi_tryboot_set_def Let_def g_log_def split: option.splits)

lemma set_other_temporary_shape:
  "raspberrypi_set_other_temporary orc w = (ok, e, w') \<Longrightarrow>
     files w' = files w \<and> snapshots w' = snapshots w
     \<and> trace w' = trace w @ Spawn [''vcmailbox'', ''0x00038064'', ''4'', ''0'', ''1''] # (if ok then [] else [Critical])
     \<and> (ok \<longrightarrow> e = None) \<and> (\<not> ok \<longrightarrow> e \<noteq> None)"
  apply (cases "raspberrypi_tryboot_set orc True w")
  subgoal for ok1 e1 w1
    using tryboot_set_shape [of orc True w ok1 e1 w1]
    by (cases ok1)
      (auto simp: raspberrypi_set_other_temporary_def g_propagate_prefixed_error_def
         g_propagate_error_def g_log_def)
  done

lemma trial_primary: "fst (r_raspberrypi_get_primary two_slots trial_world) = Some 10"
  by (simp add: r_raspberrypi_get_primary_def trial_facts resolve_two_slots) (simp add: two_slots_def)

lemma normal_primary: "fst (r_raspberrypi_get_primary two_slots normal_world) = Some 10"
  by (simp add: r_raspberrypi_get_primary_def normal_facts resolve_two_slots)

lemma persistent_run:
  "case raspberrypi_set_other_persistent two_slots no_faults 10 20 trial_world of
     (ok, err, w') \<Rightarrow>
       ok \<and> err = None \<and> files w' ''/boot/autoboot.txt'' = Some (autoboot_txt ''3'' ''2'')
       \<and> files w' ''/boot/autoboot.txt.tmp'' = None
       \<and> trace w' = [Open ''/boot/autoboot.txt.tmp'', Write ''/boot/autoboot.txt.tmp'' (autoboot_txt ''3'' ''2''),
                  Fsync ''/boot/autoboot.txt.tmp'', Exchange ''/boot/autoboot.txt.tmp'' ''/boot/autoboot.txt'',
                  Remove ''/boot/autoboot.txt.tmp'']"
  by (simp add: raspberrypi_set_other_persistent_def Let_def two_slots_def no_faults_def trial_world_def
        boot_world_def g_open_creat_def sys_write_def fsync_def r_rename_def renameat2_exchange_def
        g_remove_def sys_def printf_s_def autoboot_txt_def overwrite_def)

subsection \<open>Switching the primary slot\<close>

text \<open>
  Claim C3. For a target that is not the current primary: in a normal session
  \<open>r_raspberrypi_set_primary\<close> starts the helper with the arming arguments and nothing
  else (the files and the history of file system calls are as before; on failure a GLib
  critical message is logged); in a trial session it is the persistent writer called with
  (primary, target), its error prefixed, and neither a helper is started nor the
  firmware flag changed.
\<close>

theorem set_primary_paths:
  assumes "fst (r_raspberrypi_get_primary ctx w) = Some primary"
    and "target \<noteq> primary"
    and "fst (raspberrypi_bootloader_get_tryboot w) = Some tryboot"
  shows "case r_raspberrypi_set_primary ctx orc target w of
     (ok, err, w') \<Rightarrow>
       (\<not> tryboot \<longrightarrow>
          files w' = files w \<and> snapshots w' = snapshots w
          \<and> new_events w w' = Spawn [''vcmailbox'', ''0x00038064'', ''4'', ''0'', ''1''] # (if ok then [] else [Critical]))
       \<and> (tryboot \<longrightarrow>
          reboot_flag w' = reboot_flag w \<and> filter is_spawn (new_events w w') = []
          \<and> (ok, err, w') =
              (case raspberrypi_set_other_persistent ctx orc primary target w of
                 (ok1, e1, w1) \<Rightarrow>
                   (ok1, map_option (g_error_add_prefix ''Failed to set other persistent: '') e1, w1)))"
proof (cases tryboot)
  case False
  obtain ok e w' where t: "raspberrypi_set_other_temporary orc w = (ok, e, w')"
    by (cases "raspberrypi_set_other_temporary orc w")
  from set_other_temporary_shape [OF t] obtain x where
    sh: "files w' = files w" "snapshots w' = snapshots w"
      "trace w' = trace w @ Spawn [''vcmailbox'', ''0x00038064'', ''4'', ''0'', ''1''] # (if ok then [] else [Critical])"
      "ok \<longrightarrow> e = None" "\<not> ok \<longrightarrow> e = Some x"
    by (cases e) auto
  show ?thesis
    using False get_primary_ok [OF assms(1)] assms(2) get_tryboot_ok [OF assms(3)] t sh
    by (cases ok) (simp_all add: r_raspberrypi_set_primary_def new_events_def)
next
  case True
  obtain ok e w' where t: "raspberrypi_set_other_persistent ctx orc primary target w = (ok, e, w')"
    by (cases "raspberrypi_set_other_persistent ctx orc primary target w")
  from persistent_shape [OF t] obtain n m where
    sh: "ok \<longrightarrow> e = None" "\<not> ok \<longrightarrow> e = Some (GError (IOError n) m)"
    by auto
  have q: "reboot_flag w' = reboot_flag w \<and> filter is_spawn (new_events w w') = []"
    using quiet_new_events [OF quiet_persistent [of w ctx orc primary target]] t by simp
  show ?thesis
    using True get_primary_ok [OF assms(1)] assms(2) get_tryboot_ok [OF assms(3)] t sh q
    by (cases ok) (simp_all add: r_raspberrypi_set_primary_def g_error_add_prefix_def)
qed

theorem set_primary_paths_witness:
  "(case r_raspberrypi_set_primary two_slots no_faults 20 normal_world of
      (ok, err, w') \<Rightarrow>
        ok \<and> files w' = files normal_world
        \<and> new_events normal_world w' = [Spawn [''vcmailbox'', ''0x00038064'', ''4'', ''0'', ''1'']])
   \<and> (case r_raspberrypi_set_primary two_slots no_faults 20 trial_world of
      (ok, err, w') \<Rightarrow>
        ok \<and> reboot_flag w' = reboot_flag trial_world \<and> filter is_spawn (new_events trial_world w') = []
        \<and> files w' ''/boot/autoboot.txt'' = Some (autoboot_txt ''3'' ''2''))"
proof -
  have ne: "(20::nat) \<noteq> 10" by simp
  have n_ok: "fst (r_raspberrypi_set_primary two_slots no_faults 20 normal_world)"
    by (simp add: r_raspberrypi_set_primary_def r_raspberrypi_get_primary_def normal_facts resolve_two_slots
          raspberrypi_set_other_temporary_def raspberrypi_tryboot_set_def no_faults_def)
  have t1: "fst (raspberrypi_bootloader_get_tryboot normal_world) = Some False"
    and t2: "fst (raspberrypi_bootloader_get_tryboot trial_world) = Some True"
    by (simp_all add: normal_facts trial_facts)
  show ?thesis
    using set_primary_paths [OF normal_primary ne t1, of no_faults]
      set_primary_paths [OF trial_primary ne t2, of no_faults] n_ok persistent_run
    by (auto split: prod.splits)
qed

subsection \<open>Committing slot health\<close>

text \<open>
  Claim C5. When the current primary resolves, \<open>r_raspberrypi_set_state\<close> calls the
  persistent writer with the pair (primary, slot) exactly when the slot is not the
  primary and is marked good, or is the primary and is marked bad (the result is the
  writer's, its error prefixed); in the two other combinations it returns success and
  the world is untouched.
\<close>

theorem set_state_writes_iff:
  assumes "fst (r_raspberrypi_get_primary ctx w) = Some primary"
  shows "r_raspberrypi_set_state ctx orc s good w =
     (if (s \<noteq> primary \<and> good) \<or> (s = primary \<and> \<not> good) then
        (case raspberrypi_set_other_persistent ctx orc primary s w of
           (ok1, e1, w1) \<Rightarrow>
             (ok1, map_option (g_error_add_prefix ''Failed to set other persistent: '') e1, w1))
      else (True, None, w))"
proof -
  obtain ok e w' where t: "raspberrypi_set_other_persistent ctx orc primary s w = (ok, e, w')"
    by (cases "raspberrypi_set_other_persistent ctx orc primary s w")
  from persistent_shape [OF t] obtain n m where
    sh: "ok \<longrightarrow> e = None" "\<not> ok \<longrightarrow> e = Some (GError (IOError n) m)"
    by auto
  show ?thesis
    using get_primary_ok [OF assms] t sh
    by (cases ok) (simp_all add: r_raspberrypi_set_state_def g_error_add_prefix_def)
qed

theorem set_state_writes_iff_witness:
  "(case r_raspberrypi_set_state two_slots no_faults 20 True trial_world of
      (ok, err, w') \<Rightarrow> ok \<and> err = None \<and> files w' ''/boot/autoboot.txt'' = Some (autoboot_txt ''3'' ''2''))
   \<and> r_raspberrypi_set_state two_slots no_faults 10 True trial_world = (True, None, trial_world)
   \<and> r_raspberrypi_set_state two_slots no_faults 20 False trial_world = (True, None, trial_world)"
  using set_state_writes_iff [OF trial_primary, of no_faults 20 True]
    set_state_writes_iff [OF trial_primary, of no_faults 10 True]
    set_state_writes_iff [OF trial_primary, of no_faults 20 False] persistent_run
  by (auto split: prod.splits)

subsection \<open>An unresolvable booted partition\<close>

lemma get_primary_unresolved:
  assumes "fst (raspberrypi_bootloader_get_partition w) = Some part"
    and "raspberrypi_find_config_slot_by_boot_partition ctx part = None"
  shows "\<exists>m w'. r_raspberrypi_get_primary ctx w = (None, Some (GError ParseFailed m), w') \<and> same_device w w'"
proof (cases "fst (raspberrypi_bootloader_get_tryboot w)")
  case None
  from get_tryboot_fail [OF None] obtain m w' where
    "raspberrypi_bootloader_get_tryboot w = (None, Some (GError ParseFailed m), w')" "same_device w w'"
    by (auto simp: same_device_def)
  then show ?thesis
    using get_partition_ok [OF assms(1)] by (simp add: r_raspberrypi_get_primary_def)
next
  case (Some t)
  show ?thesis
    using get_partition_ok [OF assms(1)] get_tryboot_ok [OF Some] assms(2)
    by (simp add: r_raspberrypi_get_primary_def same_device_def)
qed

lemma get_state_unresolved:
  assumes "fst (raspberrypi_bootloader_get_partition w) = Some part"
    and "raspberrypi_find_config_slot_by_boot_partition ctx part = None"
  shows "\<exists>m w'. r_raspberrypi_get_state ctx s w = (None, Some (GError ParseFailed m), w') \<and> same_device w w'"
proof (cases "fst (raspberrypi_bootloader_get_tryboot w)")
  case None
  from get_tryboot_fail [OF None] obtain m w' where
    "raspberrypi_bootloader_get_tryboot w = (None, Some (GError ParseFailed m), w')" "same_device w w'"
    by (auto simp: same_device_def)
  then show ?thesis
    using get_partition_ok [OF assms(1)] by (simp add: r_raspberrypi_get_state_def)
next
  case (Some t)
  show ?thesis
    using get_partition_ok [OF assms(1)] get_tryboot_ok [OF Some] assms(2)
    by (simp add: r_raspberrypi_get_state_def same_device_def)
qed

text \<open>
  Claim C8. When the partition the firmware reports matches no slot of the registry,
  \<open>r_raspberrypi_get_primary\<close>, \<open>r_raspberrypi_get_state\<close> and \<open>r_raspberrypi_set_state\<close>
  each fail with an error of kind \<open>ParseFailed\<close>, and the files, the firmware flag and
  the trace of calls are what they were.
\<close>

theorem unresolved_partition:
  assumes "fst (raspberrypi_bootloader_get_partition w) = Some part"
    and "raspberrypi_find_config_slot_by_boot_partition ctx part = None"
  shows "(case r_raspberrypi_get_primary ctx w of
            (r, err, w') \<Rightarrow> r = None \<and> map_option kind err = Some ParseFailed \<and> same_device w w')
       \<and> (case r_raspberrypi_get_state ctx s w of
            (r, err, w') \<Rightarrow> r = None \<and> map_option kind err = Some ParseFailed \<and> same_device w w')
       \<and> (case r_raspberrypi_set_state ctx orc s good w of
            (ok, err, w') \<Rightarrow> \<not> ok \<and> map_option kind err = Some ParseFailed \<and> same_device w w')"
proof -
  from get_primary_unresolved [OF assms] obtain m w' where
    p: "r_raspberrypi_get_primary ctx w = (None, Some (GError ParseFailed m), w')" "same_device w w'"
    by blast
  from get_state_unresolved [OF assms, of s] obtain m2 w2 where
    g: "r_raspberrypi_get_state ctx s w = (None, Some (GError ParseFailed m2), w2)" "same_device w w2"
    by blast
  show ?thesis
    using p g by (simp add: r_raspberrypi_set_state_def)
qed

theorem unresolved_partition_witness:
  "fst (raspberrypi_bootloader_get_partition lost_world) = Some 7
   \<and> raspberrypi_find_config_slot_by_boot_partition two_slots 7 = None
   \<and> r_raspberrypi_get_primary two_slots lost_world
       = (None, Some (GError ParseFailed ''No slot found with partition 7''), lost_world)
   \<and> fst (r_raspberrypi_get_state two_slots 10 lost_world) = None
   \<and> \<not> fst (r_raspberrypi_set_state two_slots no_faults 10 True lost_world)
   \<and> files (snd (snd (r_raspberrypi_set_state two_slots no_faults 10 True lost_world))) = files lost_world"
proof -
  have h1: "fst (raspberrypi_bootloader_get_partition lost_world) = Some 7"
    by (simp add: read_defs lost_world_def)
  have h2: "raspberrypi_find_config_slot_by_boot_partition two_slots 7 = None"
    by (simp add: read_defs utoa.simps)
  have p: "r_raspberrypi_get_primary two_slots lost_world
       = (None, Some (GError ParseFailed ''No slot found with partition 7''), lost_world)"
    by (simp add: r_raspberrypi_get_primary_def read_defs lost_world_def utoa.simps printf_i_def)
  show ?thesis
    using h1 h2 p unresolved_partition [OF h1 h2, of 10 no_faults True]
    by (auto simp: same_device_def split: prod.splits)
qed

subsection \<open>Error propagation\<close>

lemma error_of_simp [simp]: "error_of (r, e, w) = e"
  by (simp add: error_of_def)


















subsection \<open>Round trip of the persistent configuration\<close>

lemma lines_from_line:
  "CHR 0x0A \<notin> set l \<Longrightarrow> lines_from cur (l @ CHR 0x0A # rest) = (cur @ l) # lines_from [] rest"
  by (induction l arbitrary: cur) auto

lemma digit_cases: "d < 10 \<Longrightarrow> d = 0 \<or> d = 1 \<or> d = 2 \<or> d = 3 \<or> d = 4 \<or> d = 5 \<or> d = 6 \<or> d = 7 \<or> d = 8 \<or> d = (9::nat)"
  by arith

lemma of_char_digit: "d < 10 \<Longrightarrow> of_char (digit d) = (48 + d :: nat)"
  using digit_cases [of d] by (auto simp: digit_def)

lemma digit_not_nl: "d < 10 \<Longrightarrow> digit d \<noteq> CHR 0x0A"
  using digit_cases [of d] by (auto simp: digit_def)

lemma utoa_no_newline: "CHR 0x0A \<notin> set (utoa n)"
proof (induction n rule: utoa.induct)
  case (1 n)
  show ?case
  proof (cases "n < 10")
    case True
    then show ?thesis using digit_not_nl [of n] by (subst utoa.simps) auto
  next
    case False
    then show ?thesis
      using 1 digit_not_nl [of "n mod 10"] by (subst utoa.simps) auto
  qed
qed

lemma atou_snoc: "atou (s @ [c]) = 10 * atou s + (of_char c - 48)"
  by (simp add: atou_def)

lemma atou_utoa: "atou (utoa n) = n"
proof (induction n rule: utoa.induct)
  case (1 n)
  show ?case
  proof (cases "n < 10")
    case True
    then show ?thesis by (subst utoa.simps) (simp add: atou_def of_char_digit)
  next
    case False
    then have "atou (utoa n) = 10 * atou (utoa (n div 10)) + (of_char (digit (n mod 10)) - 48)"
      by (subst utoa.simps) (simp add: atou_snoc)
    also have "\<dots> = 10 * (n div 10) + n mod 10"
      using 1 False by (simp add: of_char_digit)
    finally show ?thesis by simp
  qed
qed

lemma lines_autoboot:
  assumes "CHR 0x0A \<notin> set ob" and "CHR 0x0A \<notin> set pb"
  shows "lines_from [] (autoboot_txt ob pb) =
     [''[all]'', ''tryboot_a_b=1'', ''boot_partition='' @ ob, ''[tryboot]'', ''boot_partition='' @ pb]"
proof -
  have 1: "lines_from [] (autoboot_txt ob pb) = ''[all]'' # lines_from [] (''tryboot_a_b=1'' @ CHR 0x0A # ''boot_partition='' @ ob @ CHR 0x0A # ''[tryboot]'' @ CHR 0x0A # ''boot_partition='' @ pb @ [CHR 0x0A])"
    using lines_from_line [of "''[all]''" "[]"] by (simp add: autoboot_txt_def)
  have 2: "lines_from [] (''tryboot_a_b=1'' @ CHR 0x0A # ''boot_partition='' @ ob @ CHR 0x0A # ''[tryboot]'' @ CHR 0x0A # ''boot_partition='' @ pb @ [CHR 0x0A])
     = ''tryboot_a_b=1'' # lines_from [] ((''boot_partition='' @ ob) @ CHR 0x0A # ''[tryboot]'' @ CHR 0x0A # ''boot_partition='' @ pb @ [CHR 0x0A])"
    using lines_from_line [of "''tryboot_a_b=1''" "[]"] by simp
  have 3: "lines_from [] ((''boot_partition='' @ ob) @ CHR 0x0A # ''[tryboot]'' @ CHR 0x0A # ''boot_partition='' @ pb @ [CHR 0x0A])
     = (''boot_partition='' @ ob) # lines_from [] (''[tryboot]'' @ CHR 0x0A # (''boot_partition='' @ pb) @ [CHR 0x0A])"
    using lines_from_line [of "''boot_partition='' @ ob" "[]"] assms(1) by simp
  have 4: "lines_from [] (''[tryboot]'' @ CHR 0x0A # (''boot_partition='' @ pb) @ [CHR 0x0A])
     = ''[tryboot]'' # lines_from [] ((''boot_partition='' @ pb) @ CHR 0x0A # [])"
    using lines_from_line [of "''[tryboot]''" "[]"] by simp
  have 5: "lines_from [] ((''boot_partition='' @ pb) @ CHR 0x0A # []) = [''boot_partition='' @ pb]"
    using lines_from_line [of "''boot_partition='' @ pb" "[]" "[]"] assms(2) by simp
  show ?thesis
    by (simp only: 1 2 3 4 5)
qed

lemma parse_boot_partition: "parse_line (''boot_partition='' @ v) = Setting ''boot_partition'' v"
  by (simp add: parse_line_def)

lemma read_autoboot_txt:
  assumes "CHR 0x0A \<notin> set ob" and "CHR 0x0A \<notin> set pb"
  shows "read_autoboot (autoboot_txt ob pb) =
     [((''all'', ''tryboot_a_b''), ''1''), ((''all'', ''boot_partition''), ob), ((''tryboot'', ''boot_partition''), pb)]"
proof -
  have a: "parse_line ''[all]'' = Section ''all''" "parse_line ''[tryboot]'' = Section ''tryboot''"
    "parse_line ''tryboot_a_b=1'' = Setting ''tryboot_a_b'' ''1''"
    by (simp_all add: parse_line_def)
  show ?thesis
    unfolding read_autoboot_def lines_autoboot [OF assms]
    by (simp add: a parse_boot_partition del: append.simps)
qed

lemma take_full: "length (take (min k (length d)) d) = length d \<Longrightarrow> take (min k (length d)) d = d"
  by (simp add: min_def split: if_splits)

lemma trace_open: "trace (snd (g_open_creat orc fn w)) = trace w @ [Open fn]"
  by (simp add: g_open_creat_def split: option.splits)

lemma write_full:
  assumes "sys_write orc fn d w = (n, w')" and "n = int (length d)"
  shows "trace w' = trace w @ [Write fn d]"
    and "files w' = (files w)(fn \<mapsto> overwrite d (case files w fn of None \<Rightarrow> [] | Some c \<Rightarrow> c))"
    and "errno w' = errno w" and "reboot_flag w' = reboot_flag w"
proof -
  from assms obtain k where k: "write_fate orc = Written k"
    by (cases "write_fate orc") (auto simp: sys_write_def)
  from assms k have "length (take (min k (length d)) d) = length d"
    by (auto simp: sys_write_def Let_def)
  then have t: "take (min k (length d)) d = d"
    by (rule take_full)
  from assms k t show "trace w' = trace w @ [Write fn d]"
    and "files w' = (files w)(fn \<mapsto> overwrite d (case files w fn of None \<Rightarrow> [] | Some c \<Rightarrow> c))"
    and "errno w' = errno w" and "reboot_flag w' = reboot_flag w"
    by (auto simp: sys_write_def Let_def sys_def)
qed

lemma quiet_extends: "quiet w w' \<Longrightarrow> \<exists>evs. trace w' = trace w @ evs"
  by (auto simp: quiet_def)

lemma persistent_writes_text:
  assumes "fst (raspberrypi_set_other_persistent ctx orc a b w)"
  shows "Write (raspberrypi_autoboottxt_path (config ctx) @ ''.tmp'')
           (autoboot_txt (printf_s (bootname (mem ctx b))) (printf_s (bootname (mem ctx a))))
         \<in> set (new_events w (snd (snd (raspberrypi_set_other_persistent ctx orc a b w))))"
proof -
  let ?path = "raspberrypi_autoboottxt_path (config ctx)"
  let ?tmp = "?path @ ''.tmp''"
  let ?data = "autoboot_txt (printf_s (bootname (mem ctx b))) (printf_s (bootname (mem ctx a)))"
  obtain fd w1 where o: "g_open_creat orc ?tmp w = (fd, w1)"
    by (cases "g_open_creat orc ?tmp w")
  obtain n w2 where wr: "sys_write orc ?tmp ?data w1 = (n, w2)"
    by (cases "sys_write orc ?tmp ?data w1")
  obtain s w3 where fs: "fsync orc ?tmp w2 = (s, w3)"
    by (cases "fsync orc ?tmp w2")
  obtain r w4 where rn: "r_rename orc ?tmp ?path w3 = (r, w4)"
    by (cases "r_rename orc ?tmp ?path w3")
  from assms have ok: "fd" "n = int (length ?data)" "s \<noteq> - 1" "r \<noteq> - 1"
    and res: "snd (snd (raspberrypi_set_other_persistent ctx orc a b w)) = w4"
    by (auto simp: raspberrypi_set_other_persistent_def Let_def o wr fs rn split: if_splits)
  have t1: "trace w1 = trace w @ [Open ?tmp]"
    using trace_open [of orc ?tmp w] o by simp
  have t2: "trace w2 = trace w1 @ [Write ?tmp ?data]"
    using write_full(1) [OF wr ok(2)] .
  have "quiet w2 w3" using quiet_fsync [of w2 orc ?tmp] fs by simp
  moreover have "quiet w3 w4" using quiet_rename [of w3 orc ?tmp ?path] rn by simp
  ultimately obtain evs where t4: "trace w4 = trace w2 @ evs"
    using quiet_extends [OF quiet_trans] by blast
  show ?thesis
    unfolding res by (simp add: new_events_def t4 t2 t1)
qed

text \<open>
  The text that the persistent writer formats for slots whose bootnames are the
  partition numbers \<open>pa\<close> and \<open>pb\<close> reads back as exactly three settings, and it is what
  the writer has written to the temporary file whenever it reports success.
\<close>

lemma formatted_text_reads_back:
  assumes "bootname (mem ctx A) = Some (printf_u pa)"
    and "bootname (mem ctx B) = Some (printf_u pb)"
  shows "(let txt = autoboot_txt (printf_s (bootname (mem ctx B))) (printf_s (bootname (mem ctx A))) in
       read_autoboot txt =
         [((''all'', ''tryboot_a_b''), ''1''), ((''all'', ''boot_partition''), printf_u pb),
          ((''tryboot'', ''boot_partition''), printf_u pa)]
       \<and> (fst (raspberrypi_set_other_persistent ctx orc A B w) \<longrightarrow>
            Write (raspberrypi_autoboottxt_path (config ctx) @ ''.tmp'') txt
              \<in> set (new_events w (snd (snd (raspberrypi_set_other_persistent ctx orc A B w))))))
     \<and> atou (printf_u pa) = pa \<and> atou (printf_u pb) = pb"
  using persistent_writes_text [of ctx orc A B w]
    read_autoboot_txt [OF utoa_no_newline [of pb] utoa_no_newline [of pa]]
  by (simp add: assms printf_s_def printf_u_def atou_utoa Let_def)

subsection \<open>The persistent write under interruption\<close>

lemma exchange_effect:
  assumes "renameat2_exchange orc tmp path w3 = (r, w4)" and "files w3 tmp = Some d" and "tmp \<noteq> path"
  shows "snapshots w4 = snapshots w3 @ [files w4]"
    and "r = 0 \<or> r = - 1"
    and "r = 0 \<longrightarrow> files w4 path = Some d \<and> files w4 tmp = files w3 path"
    and "r = - 1 \<longrightarrow> files w4 = files w3"
  using assms
  by (auto simp: renameat2_exchange_def sys_def split: option.splits)

lemma replace_effect:
  assumes "renameat2_replace orc tmp path w3 = (r, w4)" and "files w3 tmp = Some d" and "tmp \<noteq> path"
  shows "snapshots w4 = snapshots w3 @ [files w4]"
    and "files w4 path = files w3 path \<or> files w4 path = Some d"
  using assms
  by (auto simp: renameat2_replace_def sys_def split: option.splits)

lemma remove_effect:
  assumes "g_remove orc tmp w3 = (r, w4)" and "tmp \<noteq> path"
  shows "snapshots w4 = snapshots w3 @ [files w4]"
    and "files w4 path = files w3 path"
  using assms
  by (auto simp: g_remove_def sys_def split: option.splits)

lemma snapshots_g_log [simp]: "snapshots (g_log ev w) = snapshots w"
  by (simp add: g_log_def)

lemma rename_effect:
  assumes "r_rename orc tmp path w3 = (r, w4)" and "files w3 tmp = Some d" and "tmp \<noteq> path"
  shows "\<exists>new. snapshots w4 = snapshots w3 @ new
           \<and> (\<forall>fs \<in> set new. fs path = files w3 path \<or> fs path = Some d)"
proof -
  obtain r1 v1 where ex: "renameat2_exchange orc tmp path w3 = (r1, v1)"
    by (cases "renameat2_exchange orc tmp path w3")
  obtain r2 v2 where rm: "g_remove orc tmp v1 = (r2, v2)"
    by (cases "g_remove orc tmp v1")
  obtain r3 v3 where rp: "renameat2_replace orc tmp path v1 = (r3, v3)"
    by (cases "renameat2_replace orc tmp path v1")
  note e = exchange_effect [OF ex assms(2,3)]
  note m = remove_effect [OF rm assms(3)]
  show ?thesis
  proof (cases "r1 = 0")
    case True
    then have "w4 = v2 \<or> w4 = g_log Warning v2"
      using assms(1) by (auto simp: r_rename_def ex rm split: if_splits)
    then have "snapshots w4 = snapshots w3 @ [files v1, files v2]"
      using e(1) m(1) by auto
    moreover have "files v1 path = Some d" "files v2 path = Some d"
      using True e(3) m(2) by simp_all
    ultimately show ?thesis by simp
  next
    case False
    then have r1: "r1 = - 1" and same: "files v1 = files w3"
      using e(2,4) by auto
    show ?thesis
    proof (cases "errno v1 = EINVAL")
      case True
      then have "w4 = v3"
        using assms(1) r1 by (simp add: r_rename_def ex rp)
      moreover have "files v1 tmp = Some d"
        using same assms(2) by simp
      note p = replace_effect [OF rp this assms(3)]
      ultimately have "snapshots w4 = snapshots w3 @ [files v1, files v3]"
        using e(1) by simp
      then show ?thesis
        using same p(2) by auto
    next
      case False
      then have "w4 = v1"
        using assms(1) r1 by (simp add: r_rename_def ex)
      then have "snapshots w4 = snapshots w3 @ [files v1]"
        using e(1) by simp
      then show ?thesis
        using same by auto
    qed
  qed
qed

lemma overwrite_short: "length c \<le> length d \<Longrightarrow> overwrite d c = d"
  by (simp add: overwrite_def)

lemma open_effect:
  assumes "g_open_creat orc tmp w = (fd, w1)" and "tmp \<noteq> path"
  shows "files w1 path = files w path" and "snapshots w1 = snapshots w @ [files w1]"
    and "files w1 tmp = None \<or> files w1 tmp = Some [] \<or> files w1 tmp = files w tmp"
  using assms by (auto simp: g_open_creat_def sys_def split: option.splits)

lemma write_effect:
  assumes "sys_write orc tmp d w1 = (n, w2)" and "tmp \<noteq> path"
  shows "files w2 path = files w1 path" and "snapshots w2 = snapshots w1 @ [files w2]"
    and "n = int (length d) \<longrightarrow>
           files w2 tmp = Some (overwrite d (case files w1 tmp of None \<Rightarrow> [] | Some c \<Rightarrow> c))"
  using assms
  by (auto simp: sys_write_def sys_def Let_def split: write_outcome.splits dest!: take_full)

lemma fsync_effect:
  assumes "fsync orc tmp w2 = (s, w3)"
  shows "files w3 = files w2" and "snapshots w3 = snapshots w2 @ [files w3]"
  using assms by (auto simp: fsync_def sys_def split: option.splits)

lemma crash_atomic_without_long_stale_tmp:
  assumes "case files w (raspberrypi_autoboottxt_path (config ctx) @ ''.tmp'') of
             None \<Rightarrow> True
           | Some c \<Rightarrow> length c \<le> length (autoboot_txt (printf_s (bootname (mem ctx b))) (printf_s (bootname (mem ctx a))))"
  shows "\<forall>fs \<in> set (new_snapshots w (snd (snd (raspberrypi_set_other_persistent ctx orc a b w)))).
           fs (raspberrypi_autoboottxt_path (config ctx)) = files w (raspberrypi_autoboottxt_path (config ctx))
           \<or> fs (raspberrypi_autoboottxt_path (config ctx)) =
                Some (autoboot_txt (printf_s (bootname (mem ctx b))) (printf_s (bootname (mem ctx a))))"
proof -
  let ?path = "raspberrypi_autoboottxt_path (config ctx)"
  let ?tmp = "?path @ ''.tmp''"
  let ?data = "autoboot_txt (printf_s (bootname (mem ctx b))) (printf_s (bootname (mem ctx a)))"
  have ne: "?tmp \<noteq> ?path" by simp
  obtain fd w1 where o: "g_open_creat orc ?tmp w = (fd, w1)"
    by (cases "g_open_creat orc ?tmp w")
  obtain n w2 where wr: "sys_write orc ?tmp ?data w1 = (n, w2)"
    by (cases "sys_write orc ?tmp ?data w1")
  obtain s w3 where fs: "fsync orc ?tmp w2 = (s, w3)"
    by (cases "fsync orc ?tmp w2")
  obtain r w4 where rn: "r_rename orc ?tmp ?path w3 = (r, w4)"
    by (cases "r_rename orc ?tmp ?path w3")
  note e1 = open_effect [OF o ne]
  note e2 = write_effect [OF wr ne]
  note e3 = fsync_effect [OF fs]
  have short: "length (case files w1 ?tmp of None \<Rightarrow> [] | Some c \<Rightarrow> c) \<le> length ?data"
    using e1(3) assms by (auto split: option.splits)
  have s1: "new_snapshots w w1 = [files w1]" "new_snapshots w w2 = [files w1, files w2]"
    "new_snapshots w w3 = [files w1, files w2, files w3]"
    by (simp_all add: new_snapshots_def e1(2) e2(2) e3(2))
  have p: "files w1 ?path = files w ?path" "files w2 ?path = files w ?path" "files w3 ?path = files w ?path"
    by (simp_all add: e1(1) e2(1) e3(1))
  have s4: "n = int (length ?data) \<Longrightarrow>
      \<forall>fs \<in> set (new_snapshots w w4). fs ?path = files w ?path \<or> fs ?path = Some ?data"
  proof -
    assume full: "n = int (length ?data)"
    then have "files w3 ?tmp = Some ?data"
      using e2(3) e3(1) overwrite_short [OF short] by simp
    from rename_effect [OF rn this ne] obtain new where
      new: "snapshots w4 = snapshots w3 @ new" "\<forall>fs \<in> set new. fs ?path = files w3 ?path \<or> fs ?path = Some ?data"
      by blast
    have "new_snapshots w w4 = [files w1, files w2, files w3] @ new"
      by (simp add: new_snapshots_def new(1) e1(2) e2(2) e3(2))
    then show ?thesis
      using new(2) p by auto
  qed
  have res: "snd (snd (raspberrypi_set_other_persistent ctx orc a b w)) =
      (if \<not> fd then w1 else if n \<noteq> int (length ?data) then w2 else if s = - 1 then w3 else w4)"
    by (simp add: raspberrypi_set_other_persistent_def Let_def o wr fs rn)
  have a1: "\<forall>fs \<in> set (new_snapshots w w1). fs ?path = files w ?path \<or> fs ?path = Some ?data"
    and a2: "\<forall>fs \<in> set (new_snapshots w w2). fs ?path = files w ?path \<or> fs ?path = Some ?data"
    and a3: "\<forall>fs \<in> set (new_snapshots w w3). fs ?path = files w ?path \<or> fs ?path = Some ?data"
    unfolding s1 using p by simp_all
  show ?thesis
  proof (cases fd)
    case False
    then show ?thesis unfolding res using a1 by simp
  next
    case True
    note fd = this
    show ?thesis
    proof (cases "n = int (length ?data)")
      case False
      then show ?thesis unfolding res using fd a2 by simp
    next
      case True
      then show ?thesis unfolding res using fd a3 s4 by (cases "s = - 1") simp_all
    qed
  qed
qed

lemma persistent_success_content:
  assumes "open_fault orc = None" and "write_fate orc = Written k"
    and "length (autoboot_txt (printf_s (bootname (mem ctx b))) (printf_s (bootname (mem ctx a)))) \<le> k"
    and "fsync_fault orc = None" and "exchange_fault orc = None"
    and "files w (raspberrypi_autoboottxt_path (config ctx)) = Some old"
  shows "case raspberrypi_set_other_persistent ctx orc a b w of
     (ok, e, w') \<Rightarrow>
       ok \<and> files w' (raspberrypi_autoboottxt_path (config ctx)) =
           Some (overwrite (autoboot_txt (printf_s (bootname (mem ctx b))) (printf_s (bootname (mem ctx a))))
                   (case files w (raspberrypi_autoboottxt_path (config ctx) @ ''.tmp'') of None \<Rightarrow> [] | Some c \<Rightarrow> c))
       \<and> files w' (raspberrypi_autoboottxt_path (config ctx) @ ''.tmp'') =
           (if remove_fault orc = None then None else Some old)"
  using assms
  by (auto simp: raspberrypi_set_other_persistent_def Let_def g_open_creat_def sys_write_def fsync_def
        r_rename_def renameat2_exchange_def g_remove_def sys_def g_log_def min_def
        split: option.splits)

text \<open>
  Claim C1 asks that the file at the configured path always is the complete prior or
  the complete new content. \<open>crash_atomic_without_long_stale_tmp\<close> shows this at every
  step boundary when no temporary file longer than the new content is lying around.
  The temporary file is opened without truncation, though, and is left behind when its
  removal fails (or when the device stops between the exchange and the removal). The
  run below starts from the factory file and no temporary file; the first commit
  succeeds although the removal fails, and the second commit of the same content leaves
  the new text followed by the tail of the factory file at the configured path.
\<close>

theorem stale_tmp_leaks_into_config:
  "case raspberrypi_set_other_persistent two_slots remove_fails 10 20 factory_world of
     (ok1, e1, w1) \<Rightarrow>
       (case raspberrypi_set_other_persistent two_slots no_faults 10 20 w1 of
          (ok2, e2, w2) \<Rightarrow>
            ok1 \<and> ok2
            \<and> files w1 ''/boot/autoboot.txt'' = Some (autoboot_txt ''3'' ''2'')
            \<and> files w2 ''/boot/autoboot.txt'' = Some (autoboot_txt ''3'' ''2'' @ ''# factory image'' @ [CHR 0x0A])
            \<and> files w2 ''/boot/autoboot.txt'' \<noteq> files w1 ''/boot/autoboot.txt'')"
proof -
  obtain ok1 e1 w1 where r1: "raspberrypi_set_other_persistent two_slots remove_fails 10 20 factory_world = (ok1, e1, w1)"
    by (cases "raspberrypi_set_other_persistent two_slots remove_fails 10 20 factory_world")
  obtain ok2 e2 w2 where r2: "raspberrypi_set_other_persistent two_slots no_faults 10 20 w1 = (ok2, e2, w2)"
    by (cases "raspberrypi_set_other_persistent two_slots no_faults 10 20 w1")
  have d: "autoboot_txt (printf_s (bootname (mem two_slots 20))) (printf_s (bootname (mem two_slots 10))) = autoboot_txt ''3'' ''2''"
    and p: "raspberrypi_autoboottxt_path (config two_slots) = ''/boot/autoboot.txt''"
    by (simp_all add: two_slots_def printf_s_def)
  have len: "length (autoboot_txt ''3'' ''2'') \<le> 4096"
    by (simp add: autoboot_txt_def)
  have f0: "files factory_world ''/boot/autoboot.txt'' = Some factory_txt"
    "files factory_world ''/boot/autoboot.txt.tmp'' = None"
    by (simp_all add: factory_world_def trial_world_def boot_world_def)
  have rf: "open_fault remove_fails = None" "write_fate remove_fails = Written 4096"
    "fsync_fault remove_fails = None" "exchange_fault remove_fails = None" "remove_fault remove_fails = Some 5"
    by (simp_all add: remove_fails_def no_faults_def)
  have nf: "open_fault no_faults = None" "write_fate no_faults = Written 4096"
    "fsync_fault no_faults = None" "exchange_fault no_faults = None" "remove_fault no_faults = None"
    by (simp_all add: no_faults_def)
  have s1: "ok1 \<and> files w1 ''/boot/autoboot.txt'' = Some (autoboot_txt ''3'' ''2'')
      \<and> files w1 ''/boot/autoboot.txt.tmp'' = Some factory_txt"
    using persistent_success_content [of remove_fails 4096 two_slots 20 10 factory_world factory_txt]
    by (simp add: d p len f0 r1 rf overwrite_def)
  have ov: "overwrite (autoboot_txt ''3'' ''2'') factory_txt = autoboot_txt ''3'' ''2'' @ ''# factory image'' @ [CHR 0x0A]"
    by (simp add: overwrite_def factory_txt_def autoboot_txt_def)
  have s2: "ok2 \<and> files w2 ''/boot/autoboot.txt'' = Some (autoboot_txt ''3'' ''2'' @ ''# factory image'' @ [CHR 0x0A])"
    using persistent_success_content [of no_faults 4096 two_slots 20 10 w1 "autoboot_txt ''3'' ''2''"] s1
    by (simp add: d p len r2 nf ov)
  show ?thesis
    using s1 s2 by (simp add: r1 r2)
qed

subsection \<open>Reading back the file at the configured path\<close>

lemma open_ok:
  assumes "g_open_creat orc tmp w = (True, w1)"
  shows "files w1 tmp = Some (case files w tmp of None \<Rightarrow> [] | Some c \<Rightarrow> c)"
  using assms by (auto simp: g_open_creat_def sys_def split: option.splits)

lemma files_g_log [simp]: "files (g_log ev w) = files w"
  by (simp add: g_log_def)

lemma replace_ok:
  assumes "renameat2_replace orc tmp path w3 = (r, w4)" and "files w3 tmp = Some d" and "r \<noteq> - 1"
  shows "files w4 path = Some d"
  using assms by (auto simp: renameat2_replace_def sys_def split: option.splits)

lemma rename_ok:
  assumes "r_rename orc tmp path w3 = (r, w4)" and "files w3 tmp = Some d" and "tmp \<noteq> path"
    and "r \<noteq> - 1"
  shows "files w4 path = Some d"
proof -
  obtain r1 v1 where ex: "renameat2_exchange orc tmp path w3 = (r1, v1)"
    by (cases "renameat2_exchange orc tmp path w3")
  obtain r2 v2 where rm: "g_remove orc tmp v1 = (r2, v2)"
    by (cases "g_remove orc tmp v1")
  obtain r3 v3 where rp: "renameat2_replace orc tmp path v1 = (r3, v3)"
    by (cases "renameat2_replace orc tmp path v1")
  note e = exchange_effect [OF ex assms(2,3)]
  note m = remove_effect [OF rm assms(3)]
  show ?thesis
  proof (cases "r1 = 0")
    case True
    then have "w4 = v2 \<or> w4 = g_log Warning v2"
      using assms(1) by (auto simp: r_rename_def ex rm split: if_splits)
    then show ?thesis
      using True e(3) m(2) by auto
  next
    case False
    then have r1: "r1 = - 1" and same: "files v1 = files w3"
      using e(2,4) by auto
    have einval: "errno v1 = EINVAL"
      using assms(1,4) r1 by (auto simp: r_rename_def ex split: if_splits)
    then have "(r, w4) = (r3, v3)"
      using assms(1) r1 by (simp add: r_rename_def ex rp)
    then have "renameat2_replace orc tmp path v1 = (r, w4)"
      using rp by simp
    from replace_ok [OF this _ assms(4)] same assms(2) show ?thesis
      by simp
  qed
qed

lemma file_after_success:
  assumes "fst (raspberrypi_set_other_persistent ctx orc a b w)"
  shows "files (snd (snd (raspberrypi_set_other_persistent ctx orc a b w))) (raspberrypi_autoboottxt_path (config ctx)) =
     Some (overwrite (autoboot_txt (printf_s (bootname (mem ctx b))) (printf_s (bootname (mem ctx a))))
             (case files w (raspberrypi_autoboottxt_path (config ctx) @ ''.tmp'') of None \<Rightarrow> [] | Some c \<Rightarrow> c))"
proof -
  let ?path = "raspberrypi_autoboottxt_path (config ctx)"
  let ?tmp = "?path @ ''.tmp''"
  let ?data = "autoboot_txt (printf_s (bootname (mem ctx b))) (printf_s (bootname (mem ctx a)))"
  have ne: "?tmp \<noteq> ?path" by simp
  obtain fd w1 where o: "g_open_creat orc ?tmp w = (fd, w1)"
    by (cases "g_open_creat orc ?tmp w")
  obtain n w2 where wr: "sys_write orc ?tmp ?data w1 = (n, w2)"
    by (cases "sys_write orc ?tmp ?data w1")
  obtain s w3 where fs: "fsync orc ?tmp w2 = (s, w3)"
    by (cases "fsync orc ?tmp w2")
  obtain r w4 where rn: "r_rename orc ?tmp ?path w3 = (r, w4)"
    by (cases "r_rename orc ?tmp ?path w3")
  from assms have ok: "fd" "n = int (length ?data)" "s \<noteq> - 1" "r \<noteq> - 1"
    and res: "snd (snd (raspberrypi_set_other_persistent ctx orc a b w)) = w4"
    by (auto simp: raspberrypi_set_other_persistent_def Let_def o wr fs rn split: if_splits)
  have "files w1 ?tmp = Some (case files w ?tmp of None \<Rightarrow> [] | Some c \<Rightarrow> c)"
    using open_ok [of orc ?tmp w w1] o ok(1) by simp
  then have "files w2 ?tmp = Some (overwrite ?data (case files w ?tmp of None \<Rightarrow> [] | Some c \<Rightarrow> c))"
    using write_effect(3) [OF wr ne] ok(2) by simp
  then have "files w3 ?tmp = Some (overwrite ?data (case files w ?tmp of None \<Rightarrow> [] | Some c \<Rightarrow> c))"
    using fsync_effect(1) [OF fs] by simp
  from rename_ok [OF rn this ne ok(4)] show ?thesis
    unfolding res .
qed

text \<open>
  Without a temporary file longer than the new text, the file at the configured path
  reads back as the claim says after every successful write.
\<close>

lemma file_reads_back_without_long_stale_tmp:
  assumes "bootname (mem ctx A) = Some (printf_u pa)"
    and "bootname (mem ctx B) = Some (printf_u pb)"
    and "fst (raspberrypi_set_other_persistent ctx orc A B w)"
    and "case files w (raspberrypi_autoboottxt_path (config ctx) @ ''.tmp'') of
           None \<Rightarrow> True
         | Some c \<Rightarrow> length c \<le> length (autoboot_txt (printf_u pb) (printf_u pa))"
  shows "map_option read_autoboot
           (files (snd (snd (raspberrypi_set_other_persistent ctx orc A B w))) (raspberrypi_autoboottxt_path (config ctx))) =
     Some [((''all'', ''tryboot_a_b''), ''1''), ((''all'', ''boot_partition''), printf_u pb),
           ((''tryboot'', ''boot_partition''), printf_u pa)]"
proof -
  have "overwrite (autoboot_txt (printf_u pb) (printf_u pa))
          (case files w (raspberrypi_autoboottxt_path (config ctx) @ ''.tmp'') of None \<Rightarrow> [] | Some c \<Rightarrow> c)
        = autoboot_txt (printf_u pb) (printf_u pa)"
    using assms(4) by (intro overwrite_short) (auto split: option.splits)
  then show ?thesis
    using file_after_success [OF assms(3)]
      read_autoboot_txt [OF utoa_no_newline [of pb] utoa_no_newline [of pa]]
    by (simp add: assms(1,2) printf_s_def printf_u_def)
qed

text \<open>
  Claim C6 asks that the configuration written for (other = \<open>A\<close>, target = \<open>B\<close>) reads
  back with \<open>B\<close>'s partition in \<^verbatim>\<open>[all]\<close> and \<open>A\<close>'s partition in \<^verbatim>\<open>[tryboot]\<close>. The text
  the writer formats does (\<open>formatted_text_reads_back\<close>), and so does the file at the
  configured path when no longer temporary file is lying around
  (\<open>file_reads_back_without_long_stale_tmp\<close>). The temporary file is opened without
  truncation, though. The run below starts from a configuration file with one comment
  line and no temporary file, with \<open>A\<close> the slot of partition 2 and \<open>B\<close> the slot of
  partition 3. The first write succeeds although the removal of the exchanged file
  fails, and its file reads back as claimed. The second write of the same pair succeeds
  too, and its file reads back with a second \<^verbatim>\<open>boot_partition\<close> line in \<^verbatim>\<open>[tryboot]\<close>
  that carries partition 3, the partition of \<open>B\<close>.
\<close>

theorem stale_tmp_breaks_round_trip:
  "case raspberrypi_set_other_persistent two_slots remove_fails 10 20 commented_world of
     (ok1, e1, w1) \<Rightarrow>
       (case raspberrypi_set_other_persistent two_slots no_faults 10 20 w1 of
          (ok2, e2, w2) \<Rightarrow>
            ok1 \<and> ok2
            \<and> bootname (mem two_slots 10) = Some (printf_u 2)
            \<and> bootname (mem two_slots 20) = Some (printf_u 3)
            \<and> map_option read_autoboot (files w1 ''/boot/autoboot.txt'') =
                Some [((''all'', ''tryboot_a_b''), ''1''), ((''all'', ''boot_partition''), ''3''),
                      ((''tryboot'', ''boot_partition''), ''2'')]
            \<and> files w2 ''/boot/autoboot.txt'' =
                Some (autoboot_txt ''3'' ''2'' @ ''boot_partition=3'' @ [CHR 0x0A])
            \<and> map_option read_autoboot (files w2 ''/boot/autoboot.txt'') =
                Some [((''all'', ''tryboot_a_b''), ''1''), ((''all'', ''boot_partition''), ''3''),
                      ((''tryboot'', ''boot_partition''), ''2''), ((''tryboot'', ''boot_partition''), ''3'')])"
proof -
  obtain ok1 e1 w1 where
    r1: "raspberrypi_set_other_persistent two_slots remove_fails 10 20 commented_world = (ok1, e1, w1)"
    by (cases "raspberrypi_set_other_persistent two_slots remove_fails 10 20 commented_world")
  obtain ok2 e2 w2 where
    r2: "raspberrypi_set_other_persistent two_slots no_faults 10 20 w1 = (ok2, e2, w2)"
    by (cases "raspberrypi_set_other_persistent two_slots no_faults 10 20 w1")
  have d: "autoboot_txt (printf_s (bootname (mem two_slots 20))) (printf_s (bootname (mem two_slots 10)))
      = autoboot_txt ''3'' ''2''"
    and p: "raspberrypi_autoboottxt_path (config two_slots) = ''/boot/autoboot.txt''"
    and b: "bootname (mem two_slots 10) = Some (printf_u 2)" "bootname (mem two_slots 20) = Some (printf_u 3)"
    by (simp_all add: two_slots_def printf_s_def printf_u_def)
  have len: "length (autoboot_txt ''3'' ''2'') \<le> 4096"
    by (simp add: autoboot_txt_def)
  have f0: "files commented_world ''/boot/autoboot.txt'' = Some commented_txt"
    "files commented_world ''/boot/autoboot.txt.tmp'' = None"
    by (simp_all add: commented_world_def trial_world_def boot_world_def)
  have rf: "open_fault remove_fails = None" "write_fate remove_fails = Written 4096"
    "fsync_fault remove_fails = None" "exchange_fault remove_fails = None" "remove_fault remove_fails = Some 5"
    by (simp_all add: remove_fails_def no_faults_def)
  have nf: "open_fault no_faults = None" "write_fate no_faults = Written 4096"
    "fsync_fault no_faults = None" "exchange_fault no_faults = None" "remove_fault no_faults = None"
    by (simp_all add: no_faults_def)
  have s1: "ok1 \<and> files w1 ''/boot/autoboot.txt'' = Some (autoboot_txt ''3'' ''2'')
      \<and> files w1 ''/boot/autoboot.txt.tmp'' = Some commented_txt"
    using persistent_success_content [of remove_fails 4096 two_slots 20 10 commented_world commented_txt]
    by (simp add: d p len f0 r1 rf overwrite_def)
  have ov: "overwrite (autoboot_txt ''3'' ''2'') commented_txt
      = autoboot_txt ''3'' ''2'' @ ''boot_partition=3'' @ [CHR 0x0A]"
    by (simp add: overwrite_def commented_txt_def autoboot_txt_def)
  have s2: "ok2 \<and> files w2 ''/boot/autoboot.txt'' = Some (autoboot_txt ''3'' ''2'' @ ''boot_partition=3'' @ [CHR 0x0A])"
    using persistent_success_content [of no_faults 4096 two_slots 20 10 w1 "autoboot_txt ''3'' ''2''"] s1
    by (simp add: d p len r2 nf ov)
  have rd1: "read_autoboot (autoboot_txt ''3'' ''2'') =
      [((''all'', ''tryboot_a_b''), ''1''), ((''all'', ''boot_partition''), ''3''),
       ((''tryboot'', ''boot_partition''), ''2'')]"
    by (simp add: read_autoboot_def autoboot_txt_def parse_line_def)
  have rd2: "read_autoboot (autoboot_txt ''3'' ''2'' @ ''boot_partition=3'' @ [CHR 0x0A]) =
      [((''all'', ''tryboot_a_b''), ''1''), ((''all'', ''boot_partition''), ''3''),
       ((''tryboot'', ''boot_partition''), ''2''), ((''tryboot'', ''boot_partition''), ''3'')]"
    by (simp add: read_autoboot_def autoboot_txt_def parse_line_def)
  show ?thesis
    using s1 s2 b rd1 rd2 by (simp add: r1 r2)
qed

subsection \<open>The rename step\<close>

text \<open>
  Claim C10. In \<open>r_rename\<close> the replacing rename is attempted exactly when the exchange
  fails with \<open>EINVAL\<close>, and then its outcome is the outcome of \<open>r_rename\<close>; an exchange
  that fails with another \<^verbatim>\<open>errno\<close> is returned as it is, with no further call; after
  a successful exchange the result is 0 whatever the removal of the old file does.
\<close>

theorem r_rename_fallback:
  "case renameat2_exchange orc old new w of
     (res, w1) \<Rightarrow>
       (Replace old new \<in> set (new_events w1 (snd (r_rename orc old new w)))) = (res = - 1 \<and> errno w1 = EINVAL)
       \<and> (res = - 1 \<and> errno w1 = EINVAL \<longrightarrow> r_rename orc old new w = renameat2_replace orc old new w1)
       \<and> (res = - 1 \<and> errno w1 \<noteq> EINVAL \<longrightarrow> r_rename orc old new w = (- 1, w1))
       \<and> (res = 0 \<longrightarrow> fst (r_rename orc old new w) = 0)"
proof -
  obtain res w1 where ex: "renameat2_exchange orc old new w = (res, w1)"
    by (cases "renameat2_exchange orc old new w")
  have res: "res = 0 \<or> res = - 1"
    using res_exchange [of orc old new w] ex by simp
  have ok: "res = 0 \<Longrightarrow> fst (r_rename orc old new w) = 0"
    by (simp add: r_rename_def ex split: prod.splits)
  have ok_tr: "res = 0 \<Longrightarrow> Replace old new \<notin> set (new_events w1 (snd (r_rename orc old new w)))"
    using trace_remove [of orc old w1]
    by (auto simp: r_rename_def ex new_events_def split: prod.splits)
  have fb: "res = - 1 \<Longrightarrow> errno w1 = EINVAL \<Longrightarrow> r_rename orc old new w = renameat2_replace orc old new w1"
    by (simp add: r_rename_def ex)
  have fb_tr: "res = - 1 \<Longrightarrow> errno w1 = EINVAL \<Longrightarrow>
      Replace old new \<in> set (new_events w1 (snd (r_rename orc old new w)))"
    using trace_replace [of orc old new w1] by (simp add: fb new_events_def)
  have other: "res = - 1 \<Longrightarrow> errno w1 \<noteq> EINVAL \<Longrightarrow> r_rename orc old new w = (- 1, w1)"
    by (simp add: r_rename_def ex)
  have other_tr: "res = - 1 \<Longrightarrow> errno w1 \<noteq> EINVAL \<Longrightarrow>
      Replace old new \<notin> set (new_events w1 (snd (r_rename orc old new w)))"
    by (simp add: other new_events_def)
  consider (a) "res = 0" | (b) "res = - 1" "errno w1 = EINVAL" | (c) "res = - 1" "errno w1 \<noteq> EINVAL"
    using res by blast
  then show ?thesis
  proof cases
    case a
    then show ?thesis using ok ok_tr by (simp add: ex)
  next
    case b
    then show ?thesis using fb fb_tr by (simp add: ex)
  next
    case c
    then show ?thesis using other other_tr by (simp add: ex)
  qed
qed

theorem r_rename_fallback_witness:
  "fst (renameat2_exchange (no_faults\<lparr>exchange_fault := Some EINVAL\<rparr>) ''/boot/autoboot.txt.tmp'' ''/boot/autoboot.txt''
          (boot_world [] [])) = - 1
   \<and> r_rename (no_faults\<lparr>exchange_fault := Some EINVAL\<rparr>) ''/boot/autoboot.txt.tmp'' ''/boot/autoboot.txt'' (boot_world [] [])
       = renameat2_replace (no_faults\<lparr>exchange_fault := Some EINVAL\<rparr>) ''/boot/autoboot.txt.tmp'' ''/boot/autoboot.txt''
           (sys (Exchange ''/boot/autoboot.txt.tmp'' ''/boot/autoboot.txt'') (boot_world [] []\<lparr>errno := EINVAL\<rparr>))
   \<and> fst (r_rename (no_faults\<lparr>exchange_fault := Some ENOENT\<rparr>) ''/boot/autoboot.txt.tmp'' ''/boot/autoboot.txt''
          (boot_world [] [])) = - 1"
  using r_rename_fallback [where orc = "no_faults\<lparr>exchange_fault := Some EINVAL\<rparr>" and old = "''/boot/autoboot.txt.tmp''"
          and new = "''/boot/autoboot.txt''" and w = "boot_world [] []"]
    r_rename_fallback [where orc = "no_faults\<lparr>exchange_fault := Some ENOENT\<rparr>" and old = "''/boot/autoboot.txt.tmp''"
          and new = "''/boot/autoboot.txt''" and w = "boot_world [] []"]
  by (simp add: renameat2_exchange_def no_faults_def sys_def EINVAL_def ENOENT_def)

end
